theory Spec2Isabelle
  imports Complex_Main "HOL-Library.Sublist" "HOL-Library.Multiset"
begin

section \<open>The game state of FlipShootGame.tsx\<close>

text \<open>
  A shallow embedding of the game core of \<^verbatim>\<open>src/components/FlipShootGame.tsx\<close>
  (\<^verbatim>\<open>resetGame\<close>, \<^verbatim>\<open>handleShoot\<close>, \<^verbatim>\<open>checkCollisions\<close>, \<^verbatim>\<open>updateGame\<close>) and of the
  older \<^verbatim>\<open>checkCollisions\<close> kept in \<^verbatim>\<open>unnamed/part_000\<close>.

  A JavaScript \<^verbatim>\<open>number\<close> is modelled as a \<^typ>\<open>real\<close>: the rounding of IEEE doubles,
  \<^verbatim>\<open>NaN\<close> and the infinities are not modelled. The React state updater
  \<^verbatim>\<open>setGameState(prev => ...)\<close> is modelled as a function from the previous state to the
  committed one; the pressed-key set and the draws of \<^verbatim>\<open>Math.random()\<close> are explicit
  inputs of a tick. The updater copies the state shallowly and writes to the bird object
  it shares with the previous state; the model returns the new state and takes each
  updater to run once per tick. An uncaught \<^verbatim>\<open>TypeError\<close> is the left injection of a sum.
\<close>

text \<open>
  The bird and a bullet have the same shape in \<^verbatim>\<open>interface GameState\<close>
  (\<^verbatim>\<open>x, y, velocity, size\<close>), so one record serves both.
\<close>

record body =
  b_x :: real
  b_y :: real
  b_velocity :: real
  b_size :: real

datatype edge = Top | Bottom | Left | Right

record enemy =
  e_x :: real
  e_y :: real
  e_velocityX :: real
  e_velocityY :: real
  e_size :: real
  e_type :: edge

record obstacle =
  o_x :: real
  o_topHeight :: real
  o_gap :: real
  o_width :: real

record state =
  bird :: body
  bullets :: "body list"
  enemies :: "enemy list"
  obstacles :: "obstacle list"
  score :: real
  gameRunning :: bool
  gameOver :: bool

datatype error = TypeError

definition CANVAS_WIDTH :: real where "CANVAS_WIDTH = 800"
definition CANVAS_HEIGHT :: real where "CANVAS_HEIGHT = 600"
definition GRAVITY :: real where "GRAVITY = 0.6"
definition JUMP_FORCE :: real where "JUMP_FORCE = - 12"
definition BIRD_SIZE :: real where "BIRD_SIZE = 30"
definition BULLET_SIZE :: real where "BULLET_SIZE = 8"
definition BULLET_SPEED :: real where "BULLET_SPEED = 8"
definition OBSTACLE_WIDTH :: real where "OBSTACLE_WIDTH = 60"
definition OBSTACLE_GAP :: real where "OBSTACLE_GAP = 200"
definition ENEMY_SIZE :: real where "ENEMY_SIZE = 25"

lemmas constants =
  CANVAS_WIDTH_def CANVAS_HEIGHT_def GRAVITY_def JUMP_FORCE_def BIRD_SIZE_def
  BULLET_SIZE_def BULLET_SPEED_def OBSTACLE_WIDTH_def OBSTACLE_GAP_def ENEMY_SIZE_def

subsection \<open>resetGame and handleShoot\<close>

text \<open>\<^verbatim>\<open>resetGame\<close> replaces the state by a literal; the previous state is not read.\<close>

definition resetGame :: "state \<Rightarrow> state" where
  "resetGame prev =
     \<lparr> bird = \<lparr> b_x = 100, b_y = CANVAS_HEIGHT / 2, b_velocity = 0, b_size = BIRD_SIZE \<rparr>,
       bullets = [],
       enemies = [],
       obstacles =
         [ \<lparr> o_x = 400, o_topHeight = 150, o_gap = OBSTACLE_GAP, o_width = OBSTACLE_WIDTH \<rparr>,
           \<lparr> o_x = 700, o_topHeight = 250, o_gap = OBSTACLE_GAP, o_width = OBSTACLE_WIDTH \<rparr> ],
       score = 0,
       gameRunning = True,
       gameOver = False \<rparr>"

text \<open>
  \<^verbatim>\<open>handleShoot\<close> reads two states. The guard
  \<^verbatim>\<open>if (!gameState.gameRunning || gameState.gameOver) return\<close> reads \<^verbatim>\<open>gameState\<close>, the
  state of the render in which the callback was made; the updater
  \<^verbatim>\<open>setGameState(prev => ...)\<close> reads \<^verbatim>\<open>prev\<close>, the latest state, and copies it with one
  more bullet at the end of the list. The two differ while an update is committed and
  not yet rendered. The first argument is \<^verbatim>\<open>gameState\<close>, the second \<^verbatim>\<open>prev\<close>; the result
  is the latest state after the call.
\<close>

definition newBullet :: "body \<Rightarrow> body" where
  "newBullet b =
     \<lparr> b_x = b_x b + b_size b, b_y = b_y b + b_size b / 2,
       b_velocity = BULLET_SPEED, b_size = BULLET_SIZE \<rparr>"

definition handleShoot :: "state \<Rightarrow> state \<Rightarrow> state" where
  "handleShoot gameState prev =
     (if \<not> gameRunning gameState \<or> gameOver gameState then prev
      else prev\<lparr> bullets := bullets prev @ [newBullet (bird prev)] \<rparr>)"

subsection \<open>checkCollisions\<close>

text \<open>
  The distance test of \<^verbatim>\<open>checkCollisions\<close>, written twice in the source (bullet against
  enemy, bird against enemy) with the same formula: the distance between the two centres
  against the sum of the half sizes.
\<close>

definition circleHit :: "body \<Rightarrow> enemy \<Rightarrow> bool" where
  "circleHit bullet enemy =
     (let dx = (b_x bullet + b_size bullet / 2) - (e_x enemy + e_size enemy / 2);
          dy = (b_y bullet + b_size bullet / 2) - (e_y enemy + e_size enemy / 2);
          distance = sqrt (dx * dx + dy * dy)
      in distance < b_size bullet / 2 + e_size enemy / 2)"

text \<open>\<^verbatim>\<open>xs.splice(i, 1)\<close>: removes the element at index i, nothing when i is past the end.\<close>

definition splice1 :: "nat \<Rightarrow> 'a list \<Rightarrow> 'a list" where
  "splice1 i xs = take i xs @ drop (Suc i) xs"

text \<open>
  The inner loop \<^verbatim>\<open>for (enemyIndex = newEnemies.length - 1; enemyIndex >= 0; enemyIndex--)\<close>
  up to its \<^verbatim>\<open>break\<close>: the counter is \<^verbatim>\<open>enemyIndex + 1\<close>, the result the index of the
  first enemy hit on the way down, if any.
\<close>

fun enemyScan :: "body \<Rightarrow> enemy list \<Rightarrow> nat \<Rightarrow> nat option" where
  "enemyScan bullet es 0 = None"
| "enemyScan bullet es (Suc enemyIndex) =
     (if circleHit bullet (es ! enemyIndex) then Some enemyIndex
      else enemyScan bullet es enemyIndex)"

text \<open>
  The outer loop \<^verbatim>\<open>for (bulletIndex = newBullets.length - 1; bulletIndex >= 0; bulletIndex--)\<close>
  over the triple (newBullets, newEnemies, newScore); the counter is \<^verbatim>\<open>bulletIndex + 1\<close>.
\<close>

fun bulletLoop :: "nat \<Rightarrow> body list \<times> enemy list \<times> real \<Rightarrow> body list \<times> enemy list \<times> real" where
  "bulletLoop 0 st = st"
| "bulletLoop (Suc bulletIndex) (newBullets, newEnemies, newScore) =
     (case enemyScan (newBullets ! bulletIndex) newEnemies (length newEnemies) of
        Some enemyIndex \<Rightarrow>
          bulletLoop bulletIndex
            (splice1 bulletIndex newBullets, splice1 enemyIndex newEnemies, newScore + 10)
      | None \<Rightarrow> bulletLoop bulletIndex (newBullets, newEnemies, newScore))"

definition obstacleHit :: "body \<Rightarrow> obstacle \<Rightarrow> bool" where
  "obstacleHit b obstacle =
     (b_x b + b_size b > o_x obstacle \<and> b_x b < o_x obstacle + o_width obstacle \<and>
      (b_y b < o_topHeight obstacle \<or>
       b_y b + b_size b > o_topHeight obstacle + o_gap obstacle))"

text \<open>
  \<^verbatim>\<open>checkCollisions\<close>: the local \<^verbatim>\<open>gameOver\<close> starts false, is set by the two
  \<^verbatim>\<open>forEach\<close> passes, and both flags of the returned state are written from it.
\<close>

definition checkCollisions :: "state \<Rightarrow> state" where
  "checkCollisions state =
     (let (newBullets, newEnemies, newScore) =
            bulletLoop (length (bullets state)) (bullets state, enemies state, score state);
          gameOver1 = (\<exists>enemy \<in> set newEnemies. circleHit (bird state) enemy);
          gameOver2 = (gameOver1 \<or> (\<exists>obstacle \<in> set (obstacles state). obstacleHit (bird state) obstacle))
      in state\<lparr> bullets := newBullets, enemies := newEnemies, score := newScore,
                gameOver := gameOver2, gameRunning := \<not> gameOver2 \<rparr>)"

subsection \<open>checkCollisions of unnamed/part\_000\<close>

text \<open>
  The older file tests the distance between the corners against the sum of the full sizes.
\<close>

definition cornerHit :: "body \<Rightarrow> enemy \<Rightarrow> bool" where
  "cornerHit bullet enemy =
     (let dx = b_x bullet - e_x enemy;
          dy = b_y bullet - e_y enemy;
          distance = sqrt (dx * dx + dy * dy)
      in distance < b_size bullet + e_size enemy)"

text \<open>
  \<^verbatim>\<open>newEnemies.forEach((enemy, enemyIndex) => ...)\<close> with the callback that splices both
  arrays. \<^verbatim>\<open>forEach\<close> reads the length once, counts the index up, and skips an index the
  array no longer has; the element is read when its index is reached. The arguments are
  the bullet and bulletIndex of the enclosing callback, the current index, and the number
  of indices still to visit.
\<close>

fun enemyForEach :: "body \<Rightarrow> nat \<Rightarrow> nat \<Rightarrow> nat \<Rightarrow> body list \<times> enemy list \<times> real
    \<Rightarrow> body list \<times> enemy list \<times> real" where
  "enemyForEach bullet bulletIndex enemyIndex 0 st = st"
| "enemyForEach bullet bulletIndex enemyIndex (Suc n) (newBullets, newEnemies, newScore) =
     (if enemyIndex < length newEnemies \<and> cornerHit bullet (newEnemies ! enemyIndex)
      then enemyForEach bullet bulletIndex (Suc enemyIndex) n
             (splice1 bulletIndex newBullets, splice1 enemyIndex newEnemies, newScore + 10)
      else enemyForEach bullet bulletIndex (Suc enemyIndex) n (newBullets, newEnemies, newScore))"

text \<open>\<^verbatim>\<open>newBullets.forEach((bullet, bulletIndex) => ...)\<close>, in the same way.\<close>

fun bulletForEach :: "nat \<Rightarrow> nat \<Rightarrow> body list \<times> enemy list \<times> real
    \<Rightarrow> body list \<times> enemy list \<times> real" where
  "bulletForEach bulletIndex 0 st = st"
| "bulletForEach bulletIndex (Suc n) (newBullets, newEnemies, newScore) =
     (if bulletIndex < length newBullets
      then bulletForEach (Suc bulletIndex) n
             (enemyForEach (newBullets ! bulletIndex) bulletIndex 0 (length newEnemies)
                (newBullets, newEnemies, newScore))
      else bulletForEach (Suc bulletIndex) n (newBullets, newEnemies, newScore))"

text \<open>
  In the older \<^verbatim>\<open>checkCollisions\<close> the bird passes \<^verbatim>\<open>return\<close> an object from inside the
  \<^verbatim>\<open>forEach\<close> callback, which \<^verbatim>\<open>forEach\<close> discards: they have no effect, and the flags of
  the state are returned as they came.
\<close>

definition checkCollisions_part000 :: "state \<Rightarrow> state" where
  "checkCollisions_part000 state =
     (let (newBullets, newEnemies, newScore) =
            bulletForEach 0 (length (bullets state)) (bullets state, enemies state, score state)
      in state\<lparr> bullets := newBullets, enemies := newEnemies, score := newScore \<rparr>)"

subsection \<open>updateGame\<close>

text \<open>
  What a tick reads besides the state: whether \<^verbatim>\<open>keysRef.current\<close> holds \<^verbatim>\<open>'Space'\<close>, and
  the draws of \<^verbatim>\<open>Math.random()\<close> in the order of the calls: the top height of a new
  obstacle, the enemy spawn test, the enemy type, the enemy position along its edge and
  the enemy velocity across it. \<^verbatim>\<open>Math.random()\<close> returns a number in [0, 1).
\<close>

record input =
  flap :: bool
  r_height :: real
  r_spawn :: real
  r_type :: real
  r_pos :: real
  r_vel :: real

definition draws_ok :: "input \<Rightarrow> bool" where
  "draws_ok inp =
     (0 \<le> r_height inp \<and> r_height inp < 1 \<and> 0 \<le> r_spawn inp \<and> r_spawn inp < 1 \<and>
      0 \<le> r_type inp \<and> r_type inp < 1 \<and> 0 \<le> r_pos inp \<and> r_pos inp < 1 \<and>
      0 \<le> r_vel inp \<and> r_vel inp < 1)"

text \<open>The blocks of \<^verbatim>\<open>updateGame\<close>, named after their comments in the source.\<close>

definition handleInput :: "input \<Rightarrow> state \<Rightarrow> state" where
  "handleInput inp s =
     (if flap inp then s\<lparr> bird := (bird s)\<lparr> b_velocity := JUMP_FORCE \<rparr> \<rparr> else s)"

definition updateBird :: "state \<Rightarrow> state" where
  "updateBird s =
     (let v = b_velocity (bird s) + GRAVITY
      in s\<lparr> bird := (bird s)\<lparr> b_velocity := v, b_y := b_y (bird s) + v \<rparr> \<rparr>)"

definition keepBirdInBounds :: "state \<Rightarrow> state" where
  "keepBirdInBounds s =
     (let s1 = (if b_y (bird s) < 0
                then s\<lparr> bird := (bird s)\<lparr> b_y := 0, b_velocity := 0 \<rparr> \<rparr> else s)
      in if b_y (bird s1) > CANVAS_HEIGHT - b_size (bird s1)
         then s1\<lparr> bird := (bird s1)\<lparr> b_y := CANVAS_HEIGHT - b_size (bird s1) \<rparr>,
                  gameOver := True, gameRunning := False \<rparr>
         else s1)"

definition updateBullets :: "body list \<Rightarrow> body list" where
  "updateBullets bs =
     filter (\<lambda>bullet. b_x bullet < CANVAS_WIDTH)
       (map (\<lambda>bullet. bullet\<lparr> b_x := b_x bullet + b_velocity bullet \<rparr>) bs)"

definition updateObstacles :: "obstacle list \<Rightarrow> obstacle list" where
  "updateObstacles os = map (\<lambda>obstacle. obstacle\<lparr> o_x := o_x obstacle - 3 \<rparr>) os"

text \<open>
  \<^verbatim>\<open>obstacles[obstacles.length - 1]\<close>: \<^verbatim>\<open>undefined\<close> on the empty array, and reading
  \<^verbatim>\<open>.x\<close> of it throws a TypeError.
\<close>

definition lastObstacle :: "obstacle list \<Rightarrow> obstacle option" where
  "lastObstacle os = (if os = [] then None else Some (os ! (length os - 1)))"

definition addNewObstacles :: "input \<Rightarrow> obstacle list \<Rightarrow> error + obstacle list" where
  "addNewObstacles inp os =
     (if length os < 4 then
        (case lastObstacle os of
           None \<Rightarrow> Inl TypeError
         | Some l \<Rightarrow>
             if o_x l < CANVAS_WIDTH - 300
             then Inr (os @ [\<lparr> o_x = CANVAS_WIDTH, o_topHeight = r_height inp * 200 + 100,
                               o_gap = OBSTACLE_GAP, o_width = OBSTACLE_WIDTH \<rparr>])
             else Inr os)
      else Inr os)"

definition offScreen :: "obstacle \<Rightarrow> bool" where
  "offScreen obstacle = (o_x obstacle + o_width obstacle < 0)"

text \<open>
  The \<^verbatim>\<open>filter\<close> whose callback adds 1 to the score for each obstacle it rejects; the
  result is the kept obstacles and the score.
\<close>

fun removeOffScreen :: "obstacle list \<Rightarrow> real \<Rightarrow> obstacle list \<times> real" where
  "removeOffScreen [] sc = ([], sc)"
| "removeOffScreen (obstacle # os) sc =
     (if offScreen obstacle then removeOffScreen os (sc + 1)
      else (let (kept, sc') = removeOffScreen os sc in (obstacle # kept, sc')))"

definition updateEnemies :: "enemy list \<Rightarrow> enemy list" where
  "updateEnemies es =
     filter (\<lambda>enemy. e_x enemy > - e_size enemy \<and> e_x enemy < CANVAS_WIDTH + e_size enemy \<and>
                      e_y enemy > - e_size enemy \<and> e_y enemy < CANVAS_HEIGHT + e_size enemy)
       (map (\<lambda>enemy. enemy\<lparr> e_x := e_x enemy + e_velocityX enemy,
                             e_y := e_y enemy + e_velocityY enemy \<rparr>) es)"

text \<open>
  \<^verbatim>\<open>['top', 'bottom', 'left', 'right'][Math.floor(Math.random() * 4)]\<close>: \<^verbatim>\<open>undefined\<close>
  when the index is outside the array, which a draw in [0, 1) never gives.
\<close>

definition enemyType :: "real \<Rightarrow> edge option" where
  "enemyType r =
     (let i = \<lfloor>r * 4\<rfloor>
      in if 0 \<le> i \<and> i < 4 then Some ([Top, Bottom, Left, Right] ! nat i) else None)"

fun newEnemy :: "input \<Rightarrow> edge \<Rightarrow> enemy" where
  "newEnemy inp Top =
     \<lparr> e_x = r_pos inp * CANVAS_WIDTH, e_y = - ENEMY_SIZE,
       e_velocityX = (r_vel inp - 0.5) * 2, e_velocityY = 2, e_size = ENEMY_SIZE, e_type = Top \<rparr>"
| "newEnemy inp Bottom =
     \<lparr> e_x = r_pos inp * CANVAS_WIDTH, e_y = CANVAS_HEIGHT + ENEMY_SIZE,
       e_velocityX = (r_vel inp - 0.5) * 2, e_velocityY = - 2, e_size = ENEMY_SIZE, e_type = Bottom \<rparr>"
| "newEnemy inp Left =
     \<lparr> e_x = - ENEMY_SIZE, e_y = r_pos inp * CANVAS_HEIGHT,
       e_velocityX = 2, e_velocityY = (r_vel inp - 0.5) * 2, e_size = ENEMY_SIZE, e_type = Left \<rparr>"
| "newEnemy inp Right =
     \<lparr> e_x = CANVAS_WIDTH + ENEMY_SIZE, e_y = r_pos inp * CANVAS_HEIGHT,
       e_velocityX = - 2, e_velocityY = (r_vel inp - 0.5) * 2, e_size = ENEMY_SIZE, e_type = Right \<rparr>"

text \<open>
  With an \<^verbatim>\<open>undefined\<close> enemy type no \<^verbatim>\<open>case\<close> of the \<^verbatim>\<open>switch\<close> runs and
  \<^verbatim>\<open>undefined\<close> is pushed; the first pass of \<^verbatim>\<open>checkCollisions\<close> that reaches it reads
  \<^verbatim>\<open>enemy.x\<close> and throws, so the tick ends in a TypeError.
\<close>

definition spawnEnemies :: "input \<Rightarrow> enemy list \<Rightarrow> error + enemy list" where
  "spawnEnemies inp es =
     (if r_spawn inp < 0.02 then
        (case enemyType (r_type inp) of
           None \<Rightarrow> Inl TypeError
         | Some t \<Rightarrow> Inr (es @ [newEnemy inp t]))
      else Inr es)"

text \<open>
  The body of the updater of \<^verbatim>\<open>updateGame\<close> up to the call of \<^verbatim>\<open>checkCollisions\<close>: the
  state handed to \<^verbatim>\<open>checkCollisions\<close>.
\<close>

definition candidateState :: "input \<Rightarrow> state \<Rightarrow> error + state" where
  "candidateState inp prevState =
     (let s1 = keepBirdInBounds (updateBird (handleInput inp prevState))
      in case addNewObstacles inp (updateObstacles (obstacles s1)) of
           Inl e \<Rightarrow> Inl e
         | Inr os \<Rightarrow>
             (let (kept, sc) = removeOffScreen os (score s1)
              in case spawnEnemies inp (updateEnemies (enemies s1)) of
                   Inl e \<Rightarrow> Inl e
                 | Inr es \<Rightarrow>
                     Inr (s1\<lparr> bullets := updateBullets (bullets s1), obstacles := kept,
                              score := sc, enemies := es \<rparr>)))"

definition updateGame :: "input \<Rightarrow> state \<Rightarrow> error + state" where
  "updateGame inp prevState =
     (if \<not> gameRunning prevState then Inr prevState
      else case candidateState inp prevState of
             Inl e \<Rightarrow> Inl e
           | Inr newState \<Rightarrow> Inr (checkCollisions newState))"

text \<open>A sequence of ticks, one input per tick; it stops at the first TypeError.\<close>

fun ticks :: "input list \<Rightarrow> state \<Rightarrow> error + state" where
  "ticks [] s = Inr s"
| "ticks (inp # inps) s =
     (case updateGame inp s of Inl e \<Rightarrow> Inl e | Inr s' \<Rightarrow> ticks inps s')"

subsection \<open>The state before the first start\<close>

text \<open>The argument of \<^verbatim>\<open>useState<GameState>\<close>: the state of the component before any reset.\<close>

definition initialState :: state where
  "initialState =
     \<lparr> bird = \<lparr> b_x = 100, b_y = CANVAS_HEIGHT / 2, b_velocity = 0, b_size = BIRD_SIZE \<rparr>,
       bullets = [], enemies = [], obstacles = [],
       score = 0, gameRunning = False, gameOver = False \<rparr>"

subsection \<open>An invariant of the obstacle list\<close>

text \<open>
  The property of the obstacle list that every tick keeps: it is not empty, every obstacle
  has the fixed width and has not yet scrolled fully past the left edge, consecutive
  obstacles are at least 300 apart from left to right, and the last one is not beyond the
  right edge.
\<close>

definition obstaclesSpaced :: "obstacle list \<Rightarrow> bool" where
  "obstaclesSpaced os =
     (os \<noteq> [] \<and>
      list_all (\<lambda>obstacle. o_width obstacle = OBSTACLE_WIDTH \<and> - OBSTACLE_WIDTH \<le> o_x obstacle) os \<and>
      sorted_wrt (\<lambda>a b. o_x a + 300 \<le> o_x b) os \<and>
      o_x (last os) \<le> CANVAS_WIDTH)"

section \<open>Auxiliary lemmas\<close>

subsection \<open>Evaluating the distance tests\<close>

lemma sqrt_sum_less: "sqrt (a * a + b * b) < r \<longleftrightarrow> 0 < r \<and> a * a + b * b < r * r"
proof (cases "0 < r")
  case True
  have nn: "0 \<le> a * a + b * b" by simp
  have "sqrt (a * a + b * b) < r \<longleftrightarrow> sqrt (a * a + b * b) < sqrt (r * r)"
    using True by simp
  also have "\<dots> \<longleftrightarrow> a * a + b * b < r * r"
    by (rule real_sqrt_less_iff)
  finally show ?thesis using True by simp
next
  case False
  have "0 \<le> sqrt (a * a + b * b)" by simp
  with False show ?thesis by linarith
qed

lemma circleHit_iff:
  "circleHit bullet enemy \<longleftrightarrow>
     0 < b_size bullet / 2 + e_size enemy / 2 \<and>
     ((b_x bullet + b_size bullet / 2) - (e_x enemy + e_size enemy / 2)) *
     ((b_x bullet + b_size bullet / 2) - (e_x enemy + e_size enemy / 2)) +
     ((b_y bullet + b_size bullet / 2) - (e_y enemy + e_size enemy / 2)) *
     ((b_y bullet + b_size bullet / 2) - (e_y enemy + e_size enemy / 2))
     < (b_size bullet / 2 + e_size enemy / 2) * (b_size bullet / 2 + e_size enemy / 2)"
  unfolding circleHit_def Let_def by (rule sqrt_sum_less)

lemma cornerHit_iff:
  "cornerHit bullet enemy \<longleftrightarrow>
     0 < b_size bullet + e_size enemy \<and>
     (b_x bullet - e_x enemy) * (b_x bullet - e_x enemy) +
     (b_y bullet - e_y enemy) * (b_y bullet - e_y enemy)
     < (b_size bullet + e_size enemy) * (b_size bullet + e_size enemy)"
  unfolding cornerHit_def Let_def by (rule sqrt_sum_less)

lemmas tick_defs =
  updateGame_def candidateState_def handleInput_def updateBird_def keepBirdInBounds_def
  updateBullets_def updateObstacles_def lastObstacle_def addNewObstacles_def offScreen_def
  updateEnemies_def enemyType_def spawnEnemies_def checkCollisions_def obstacleHit_def
  splice1_def Let_def

subsection \<open>The loops of checkCollisions\<close>

lemma enemyScan_Some: "enemyScan b es k = Some j \<Longrightarrow> j < k \<and> circleHit b (es ! j)"
  by (induction k) (auto split: if_splits)

lemma enemyScan_None: "enemyScan b es k = None \<Longrightarrow> j < k \<Longrightarrow> \<not> circleHit b (es ! j)"
  by (induction k) (auto split: if_splits simp: less_Suc_eq)

lemma enemyScan_None_set:
  assumes "enemyScan b es (length es) = None" and "e \<in> set es"
  shows "\<not> circleHit b e"
proof -
  from assms(2) obtain j where "j < length es" "es ! j = e" by (auto simp: in_set_conv_nth)
  with enemyScan_None [OF assms(1)] show ?thesis by auto
qed

lemma length_splice1: "i < length xs \<Longrightarrow> length (splice1 i xs) = length xs - 1"
  by (simp add: splice1_def)

lemma set_splice1: "set (splice1 i xs) \<subseteq> set xs"
  unfolding splice1_def by (auto dest: in_set_takeD in_set_dropD)

lemma subseq_splice1: "subseq (splice1 i xs) xs"
proof (cases "i < length xs")
  case True
  then have eq: "xs = take i xs @ (xs ! i) # drop (Suc i) xs" by (rule id_take_nth_drop)
  have "subseq (take i xs @ drop (Suc i) xs) (take i xs @ (xs ! i) # drop (Suc i) xs)"
    by (auto simp: subseq_append')
  with eq show ?thesis by (simp add: splice1_def)
next
  case False
  then show ?thesis by (simp add: splice1_def)
qed

lemma set_splice1_rest: "i < length xs \<Longrightarrow> set xs \<subseteq> insert (xs ! i) (set (splice1 i xs))"
proof -
  assume "i < length xs"
  then have "xs = take i xs @ (xs ! i) # drop (Suc i) xs" by (rule id_take_nth_drop)
  then have "set xs = set (take i xs) \<union> {xs ! i} \<union> set (drop (Suc i) xs)"
    by (metis Un_insert_right append_Nil2 set_append list.simps(15) sup_bot.right_neutral Un_assoc insert_is_Un)
  then show ?thesis by (auto simp: splice1_def)
qed

lemma nth_splice1_ge: "i \<le> j \<Longrightarrow> Suc j < length xs \<Longrightarrow> splice1 i xs ! j = xs ! Suc j"
  by (simp add: splice1_def nth_append min_def)

lemma enemyScan_no_hit:
  "(\<And>e. e \<in> set es \<Longrightarrow> \<not> circleHit b e) \<Longrightarrow> k \<le> length es \<Longrightarrow> enemyScan b es k = None"
  by (induction k) simp_all

lemma bulletLoop_no_hits:
  "(\<And>b e. b \<in> set bs \<Longrightarrow> e \<in> set es \<Longrightarrow> \<not> circleHit b e) \<Longrightarrow> k \<le> length bs \<Longrightarrow>
   bulletLoop k (bs, es, sc) = (bs, es, sc)"
proof (induction k)
  case 0
  then show ?case by simp
next
  case (Suc k)
  then have "enemyScan (bs ! k) es (length es) = None"
    by (intro enemyScan_no_hit) simp_all
  with Suc show ?case by simp
qed

lemma bulletLoop_subseq:
  "bulletLoop k (bs, es, sc) = (bs', es', sc') \<Longrightarrow> subseq bs' bs \<and> subseq es' es"
proof (induction k arbitrary: bs es sc)
  case 0
  then show ?case by simp
next
  case (Suc k)
  show ?case
  proof (cases "enemyScan (bs ! k) es (length es)")
    case None
    with Suc.prems have "bulletLoop k (bs, es, sc) = (bs', es', sc')" by simp
    then show ?thesis by (rule Suc.IH)
  next
    case (Some j)
    with Suc.prems have "bulletLoop k (splice1 k bs, splice1 j es, sc + 10) = (bs', es', sc')"
      by simp
    then have "subseq bs' (splice1 k bs) \<and> subseq es' (splice1 j es)" by (rule Suc.IH)
    then show ?thesis
      using subseq_splice1 [of k bs] subseq_splice1 [of j es]
      by (blast intro: subseq_order.order_trans)
  qed
qed

lemma bulletLoop_count:
  "k \<le> length bs \<Longrightarrow> bulletLoop k (bs, es, sc) = (bs', es', sc') \<Longrightarrow>
   \<exists>n. length bs = length bs' + n \<and> length es = length es' + n \<and> sc' = sc + 10 * real n"
proof (induction k arbitrary: bs es sc)
  case 0
  then show ?case by simp
next
  case (Suc k)
  show ?case
  proof (cases "enemyScan (bs ! k) es (length es)")
    case None
    with Suc.prems have "bulletLoop k (bs, es, sc) = (bs', es', sc')" by simp
    moreover from Suc.prems have "k \<le> length bs" by simp
    ultimately show ?thesis by (rule Suc.IH [rotated])
  next
    case (Some j)
    then have j: "j < length es" by (auto dest: enemyScan_Some)
    from Suc.prems have k: "k < length bs" by simp
    from Some Suc.prems have run: "bulletLoop k (splice1 k bs, splice1 j es, sc + 10) = (bs', es', sc')"
      by simp
    from k have "k \<le> length (splice1 k bs)" by (simp add: length_splice1)
    from Suc.IH [OF this run] obtain n where
      n: "length (splice1 k bs) = length bs' + n" "length (splice1 j es) = length es' + n"
         "sc' = sc + 10 + 10 * real n"
      by auto
    from n k j have "length bs = length bs' + Suc n \<and> length es = length es' + Suc n \<and>
        sc' = sc + 10 * real (Suc n)"
      by (auto simp: length_splice1)
    then show ?thesis by blast
  qed
qed

lemma bulletLoop_no_hit:
  "k \<le> length bs \<Longrightarrow>
   (\<And>i e. k \<le> i \<Longrightarrow> i < length bs \<Longrightarrow> e \<in> set es \<Longrightarrow> \<not> circleHit (bs ! i) e) \<Longrightarrow>
   bulletLoop k (bs, es, sc) = (bs', es', sc') \<Longrightarrow>
   b \<in> set bs' \<Longrightarrow> e \<in> set es' \<Longrightarrow> \<not> circleHit b e"
proof (induction k arbitrary: bs es sc)
  case 0
  from "0.prems"(3) have "bs' = bs" "es' = es" by simp_all
  with "0.prems"(4) obtain i where "i < length bs" "bs ! i = b" by (auto simp: in_set_conv_nth)
  with "0.prems"(2) [of i e] "0.prems"(5) \<open>es' = es\<close> show ?case by auto
next
  case (Suc k)
  from Suc.prems(1) have k: "k < length bs" by simp
  show ?case
  proof (cases "enemyScan (bs ! k) es (length es)")
    case None
    with Suc.prems(3) have run: "bulletLoop k (bs, es, sc) = (bs', es', sc')" by simp
    have inv: "\<not> circleHit (bs ! i) e'" if "k \<le> i" "i < length bs" "e' \<in> set es" for i e'
    proof (cases "i = k")
      case True
      with None that show ?thesis by (auto dest: enemyScan_None_set)
    next
      case False
      with that have "Suc k \<le> i" by simp
      with Suc.prems(2) that show ?thesis by blast
    qed
    show ?thesis
      by (rule Suc.IH [OF _ inv run Suc.prems(4,5)]) (use k in simp_all)
  next
    case (Some j)
    with Suc.prems(3) have run:
      "bulletLoop k (splice1 k bs, splice1 j es, sc + 10) = (bs', es', sc')" by simp
    have len: "length (splice1 k bs) = length bs - 1" using k by (rule length_splice1)
    have inv: "\<not> circleHit (splice1 k bs ! i) e'"
      if "k \<le> i" "i < length (splice1 k bs)" "e' \<in> set (splice1 j es)" for i e'
    proof -
      from that len have "Suc i < length bs" by simp
      with that have "splice1 k bs ! i = bs ! Suc i" by (simp add: nth_splice1_ge)
      moreover from that have "e' \<in> set es" using set_splice1 by fastforce
      ultimately show ?thesis using Suc.prems(2) [of "Suc i" e'] that \<open>Suc i < length bs\<close> by simp
    qed
    show ?thesis
      by (rule Suc.IH [OF _ inv run Suc.prems(4,5)]) (use k len in simp_all)
  qed
qed

lemma bulletLoop_removed_bullet:
  "k \<le> length bs \<Longrightarrow> bulletLoop k (bs, es, sc) = (bs', es', sc') \<Longrightarrow>
   b \<in> set bs \<Longrightarrow> b \<notin> set bs' \<Longrightarrow> \<exists>e\<in>set es. circleHit b e"
proof (induction k arbitrary: bs es sc)
  case 0
  then show ?case by simp
next
  case (Suc k)
  from Suc.prems(1) have k: "k < length bs" by simp
  show ?case
  proof (cases "enemyScan (bs ! k) es (length es)")
    case None
    with Suc.prems(2) have run: "bulletLoop k (bs, es, sc) = (bs', es', sc')" by simp
    show ?thesis by (rule Suc.IH [OF _ run Suc.prems(3,4)]) (use k in simp)
  next
    case (Some j)
    then have j: "j < length es" "circleHit (bs ! k) (es ! j)" by (auto dest: enemyScan_Some)
    from Some Suc.prems(2) have run:
      "bulletLoop k (splice1 k bs, splice1 j es, sc + 10) = (bs', es', sc')" by simp
    show ?thesis
    proof (cases "b \<in> set (splice1 k bs)")
      case True
      have "\<exists>e\<in>set (splice1 j es). circleHit b e"
        by (rule Suc.IH [OF _ run True Suc.prems(4)]) (use k in \<open>simp add: length_splice1\<close>)
      then show ?thesis using set_splice1 by fastforce
    next
      case False
      with Suc.prems(3) set_splice1_rest [OF k] have "b = bs ! k" by auto
      with j show ?thesis by auto
    qed
  qed
qed

lemma bulletLoop_removed_enemy:
  "k \<le> length bs \<Longrightarrow> bulletLoop k (bs, es, sc) = (bs', es', sc') \<Longrightarrow>
   e \<in> set es \<Longrightarrow> e \<notin> set es' \<Longrightarrow> \<exists>b\<in>set bs. circleHit b e"
proof (induction k arbitrary: bs es sc)
  case 0
  then show ?case by simp
next
  case (Suc k)
  from Suc.prems(1) have k: "k < length bs" by simp
  show ?case
  proof (cases "enemyScan (bs ! k) es (length es)")
    case None
    with Suc.prems(2) have run: "bulletLoop k (bs, es, sc) = (bs', es', sc')" by simp
    show ?thesis by (rule Suc.IH [OF _ run Suc.prems(3,4)]) (use k in simp)
  next
    case (Some j)
    then have j: "j < length es" "circleHit (bs ! k) (es ! j)" by (auto dest: enemyScan_Some)
    from Some Suc.prems(2) have run:
      "bulletLoop k (splice1 k bs, splice1 j es, sc + 10) = (bs', es', sc')" by simp
    show ?thesis
    proof (cases "e \<in> set (splice1 j es)")
      case True
      have "\<exists>b\<in>set (splice1 k bs). circleHit b e"
        by (rule Suc.IH [OF _ run True Suc.prems(4)]) (use k in \<open>simp add: length_splice1\<close>)
      then show ?thesis using set_splice1 by fastforce
    next
      case False
      with Suc.prems(3) set_splice1_rest [OF j(1)] have "e = es ! j" by auto
      with j k show ?thesis by auto
    qed
  qed
qed

lemma enemyScan_Some_last:
  "enemyScan b es k = Some j \<Longrightarrow> j < i \<Longrightarrow> i < k \<Longrightarrow> \<not> circleHit b (es ! i)"
  by (induction k) (auto split: if_splits simp: less_Suc_eq)

lemma enemyScan_SomeI:
  "j < k \<Longrightarrow> circleHit b (es ! j) \<Longrightarrow> (\<And>i. j < i \<Longrightarrow> i < k \<Longrightarrow> \<not> circleHit b (es ! i)) \<Longrightarrow>
   enemyScan b es k = Some j"
proof (induction k)
  case 0
  then show ?case by simp
next
  case (Suc k)
  show ?case
  proof (cases "j = k")
    case True
    with Suc.prems show ?thesis by simp
  next
    case False
    with Suc.prems have "j < k" by simp
    moreover from this Suc.prems(3) have "\<not> circleHit b (es ! k)" by simp
    ultimately show ?thesis using Suc by simp
  qed
qed

lemma splice1_append_left: "k < length bs \<Longrightarrow> splice1 k (bs @ post) = splice1 k bs @ post"
  by (simp add: splice1_def)

lemma splice1_last: "splice1 (length bs) (bs @ [b]) = bs"
  by (simp add: splice1_def)

lemma bulletLoop_append:
  "k \<le> length bs \<Longrightarrow>
   bulletLoop k (bs @ post, es, sc) =
     (case bulletLoop k (bs, es, sc) of (bs', es', sc') \<Rightarrow> (bs' @ post, es', sc'))"
proof (induction k arbitrary: bs es sc)
  case 0
  then show ?case by simp
next
  case (Suc k)
  then have k: "k < length bs" by simp
  then have nth: "(bs @ post) ! k = bs ! k" by (simp add: nth_append)
  show ?case
  proof (cases "enemyScan (bs ! k) es (length es)")
    case None
    with Suc.IH [of bs es sc] k nth show ?thesis by simp
  next
    case (Some j)
    from k have "k \<le> length (splice1 k bs)" by (simp add: length_splice1)
    from Suc.IH [OF this, of "splice1 j es" "sc + 10"] Some k nth show ?thesis
      by (simp add: splice1_append_left)
  qed
qed

lemma mset_splice1: "i < length xs \<Longrightarrow> mset xs = mset (splice1 i xs) + {#xs ! i#}"
proof -
  assume "i < length xs"
  then have "xs = take i xs @ (xs ! i) # drop (Suc i) xs" by (rule id_take_nth_drop)
  then have "mset xs = mset (take i xs @ (xs ! i) # drop (Suc i) xs)" by simp
  then show ?thesis by (simp add: splice1_def)
qed

lemma bulletLoop_pairs:
  "k \<le> length bs \<Longrightarrow> bulletLoop k (bs, es, sc) = (bs', es', sc') \<Longrightarrow>
   \<exists>hits. list_all (\<lambda>(b, e). circleHit b e) hits \<and>
          mset bs = mset bs' + mset (map fst hits) \<and>
          mset es = mset es' + mset (map snd hits) \<and>
          sc' = sc + 10 * real (length hits)"
proof (induction k arbitrary: bs es sc)
  case 0
  then have "list_all (\<lambda>(b, e). circleHit b e) [] \<and> mset bs = mset bs' + mset (map fst []) \<and>
      mset es = mset es' + mset (map snd []) \<and> sc' = sc + 10 * real (length ([] :: (body \<times> enemy) list))"
    by simp
  then show ?case by blast
next
  case (Suc k)
  from Suc.prems(1) have k: "k < length bs" by simp
  show ?case
  proof (cases "enemyScan (bs ! k) es (length es)")
    case None
    with Suc.prems(2) have run: "bulletLoop k (bs, es, sc) = (bs', es', sc')" by simp
    show ?thesis by (rule Suc.IH [OF _ run]) (use k in simp)
  next
    case (Some j)
    then have j: "j < length es" "circleHit (bs ! k) (es ! j)" by (auto dest: enemyScan_Some)
    from Some Suc.prems(2) have run:
      "bulletLoop k (splice1 k bs, splice1 j es, sc + 10) = (bs', es', sc')" by simp
    from k have "k \<le> length (splice1 k bs)" by (simp add: length_splice1)
    from Suc.IH [OF this run] obtain hits where
      h: "list_all (\<lambda>(b, e). circleHit b e) hits"
         "mset (splice1 k bs) = mset bs' + mset (map fst hits)"
         "mset (splice1 j es) = mset es' + mset (map snd hits)"
         "sc' = sc + 10 + 10 * real (length hits)"
      by auto
    let ?hits = "(bs ! k, es ! j) # hits"
    have "list_all (\<lambda>(b, e). circleHit b e) ?hits" using h(1) j(2) by simp
    moreover have "mset bs = mset bs' + mset (map fst ?hits)"
      using mset_splice1 [OF k] h(2) by simp
    moreover have "mset es = mset es' + mset (map snd ?hits)"
      using mset_splice1 [OF j(1)] h(3) by simp
    moreover have "sc' = sc + 10 * real (length ?hits)" using h(4) by simp
    ultimately show ?thesis by blast
  qed
qed

subsection \<open>The fields of the state after a tick\<close>

lemma removeOffScreen_eq:
  "removeOffScreen os sc =
     (filter (\<lambda>obstacle. \<not> offScreen obstacle) os, sc + real (length (filter offScreen os)))"
  by (induction os arbitrary: sc) (auto simp: Let_def)

lemma bird_blocks_fields [simp]:
  "bullets (keepBirdInBounds (updateBird (handleInput inp s))) = bullets s"
  "enemies (keepBirdInBounds (updateBird (handleInput inp s))) = enemies s"
  "obstacles (keepBirdInBounds (updateBird (handleInput inp s))) = obstacles s"
  "score (keepBirdInBounds (updateBird (handleInput inp s))) = score s"
  by (simp_all add: keepBirdInBounds_def updateBird_def handleInput_def Let_def)

lemma candidateState_fields:
  assumes "candidateState inp s = Inr c"
  obtains os es where
    "addNewObstacles inp (updateObstacles (obstacles s)) = Inr os"
    "spawnEnemies inp (updateEnemies (enemies s)) = Inr es"
    "obstacles c = filter (\<lambda>obstacle. \<not> offScreen obstacle) os"
    "score c = score s + real (length (filter offScreen os))"
    "bullets c = updateBullets (bullets s)"
    "enemies c = es"
    "bird c = bird (keepBirdInBounds (updateBird (handleInput inp s)))"
  using assms
  by (auto simp: candidateState_def Let_def removeOffScreen_eq split: sum.splits)

lemma checkCollisions_fields:
  obtains bs' es' sc' where
    "bulletLoop (length (bullets c)) (bullets c, enemies c, score c) = (bs', es', sc')"
    "bullets (checkCollisions c) = bs'"
    "enemies (checkCollisions c) = es'"
    "score (checkCollisions c) = sc'"
proof -
  obtain bs' es' sc' where
    "bulletLoop (length (bullets c)) (bullets c, enemies c, score c) = (bs', es', sc')"
    by (cases "bulletLoop (length (bullets c)) (bullets c, enemies c, score c)") auto
  then show ?thesis
    by (intro that [of bs' es' sc']) (simp_all add: checkCollisions_def Let_def)
qed

lemma checkCollisions_same [simp]:
  "bird (checkCollisions c) = bird c"
  "obstacles (checkCollisions c) = obstacles c"
  by (simp_all add: checkCollisions_def Let_def split: prod.splits)

lemma checkCollisions_count:
  "\<exists>n. length (bullets c) = length (bullets (checkCollisions c)) + n \<and>
       length (enemies c) = length (enemies (checkCollisions c)) + n \<and>
       score (checkCollisions c) = score c + 10 * real n"
proof -
  obtain bs' es' sc' where
    run: "bulletLoop (length (bullets c)) (bullets c, enemies c, score c) = (bs', es', sc')"
    and eq: "bullets (checkCollisions c) = bs'" "enemies (checkCollisions c) = es'"
      "score (checkCollisions c) = sc'"
    by (rule checkCollisions_fields)
  from bulletLoop_count [OF _ run] eq show ?thesis by simp
qed

lemma updateGame_running:
  assumes "gameRunning s" and "updateGame inp s = Inr s'"
  obtains c where "candidateState inp s = Inr c" and "s' = checkCollisions c"
  using assms by (auto simp: updateGame_def split: sum.splits)

lemma addNewObstacles_offScreen:
  "addNewObstacles inp os = Inr os' \<Longrightarrow> filter offScreen os' = filter offScreen os"
  by (auto simp: addNewObstacles_def offScreen_def constants split: if_splits option.splits)

lemma addNewObstacles_cases:
  "addNewObstacles inp xs = Inr os \<Longrightarrow>
   os = xs \<or> os = xs @ [\<lparr> o_x = CANVAS_WIDTH, o_topHeight = r_height inp * 200 + 100,
                            o_gap = OBSTACLE_GAP, o_width = OBSTACLE_WIDTH \<rparr>]"
  by (auto simp: addNewObstacles_def split: if_splits option.splits)

lemma keepBirdInBounds_range:
  assumes "0 \<le> CANVAS_HEIGHT - b_size (bird s)"
  shows "0 \<le> b_y (bird (keepBirdInBounds s)) \<and>
         b_y (bird (keepBirdInBounds s)) \<le> CANVAS_HEIGHT - b_size (bird (keepBirdInBounds s))"
  using assms by (auto simp: keepBirdInBounds_def Let_def)

lemma keepBirdInBounds_upper:
  assumes "b_y (bird s) < 0" and "0 \<le> CANVAS_HEIGHT - b_size (bird s)"
  shows "b_velocity (bird (keepBirdInBounds s)) = 0 \<and> b_y (bird (keepBirdInBounds s)) = 0"
  using assms by (auto simp: keepBirdInBounds_def Let_def)

lemma b_size_physics [simp]:
  "b_size (bird (updateBird (handleInput inp s))) = b_size (bird s)"
  by (simp add: updateBird_def handleInput_def Let_def)

subsection \<open>checkCollisions, one bullet at a time\<close>

lemma checkCollisions_loop:
  "bulletLoop (length (bullets s)) (bullets s, enemies s, score s) = (bs', es', sc') \<Longrightarrow>
   checkCollisions s =
     s\<lparr> bullets := bs', enemies := es', score := sc',
        gameOver := ((\<exists>enemy\<in>set es'. circleHit (bird s) enemy) \<or>
                     (\<exists>obstacle\<in>set (obstacles s). obstacleHit (bird s) obstacle)),
        gameRunning := \<not> ((\<exists>enemy\<in>set es'. circleHit (bird s) enemy) \<or>
                     (\<exists>obstacle\<in>set (obstacles s). obstacleHit (bird s) obstacle)) \<rparr>"
  by (simp add: checkCollisions_def Let_def)

lemma checkCollisions_last_miss:
  assumes "bullets s = bs @ [b]" and "\<And>e. e \<in> set (enemies s) \<Longrightarrow> \<not> circleHit b e"
  shows "checkCollisions s =
           (checkCollisions (s\<lparr> bullets := bs \<rparr>))
             \<lparr> bullets := bullets (checkCollisions (s\<lparr> bullets := bs \<rparr>)) @ [b] \<rparr>"
proof -
  obtain bs' es' sc' where
    run: "bulletLoop (length bs) (bs, enemies s, score s) = (bs', es', sc')"
    by (cases "bulletLoop (length bs) (bs, enemies s, score s)") auto
  have none: "enemyScan b (enemies s) (length (enemies s)) = None"
    using assms(2) by (intro enemyScan_no_hit) simp_all
  have "bulletLoop (length (bs @ [b])) (bs @ [b], enemies s, score s) =
        bulletLoop (length bs) (bs @ [b], enemies s, score s)"
    using none by simp
  also have "\<dots> = (bs' @ [b], es', sc')"
    using run by (simp add: bulletLoop_append)
  finally have full: "bulletLoop (length (bullets s)) (bullets s, enemies s, score s) =
      (bs' @ [b], es', sc')"
    by (simp add: assms(1))
  from run have small: "bulletLoop (length (bullets (s\<lparr> bullets := bs \<rparr>)))
      (bullets (s\<lparr> bullets := bs \<rparr>), enemies (s\<lparr> bullets := bs \<rparr>), score (s\<lparr> bullets := bs \<rparr>)) =
      (bs', es', sc')"
    by simp
  show ?thesis
    by (simp add: checkCollisions_loop [OF full] checkCollisions_loop [OF small])
qed

lemma checkCollisions_last_hit:
  assumes "bullets s = bs @ [b]" and "j < length (enemies s)"
    and "circleHit b (enemies s ! j)"
    and "\<And>i. j < i \<Longrightarrow> i < length (enemies s) \<Longrightarrow> \<not> circleHit b (enemies s ! i)"
  shows "checkCollisions s =
           checkCollisions (s\<lparr> bullets := bs,
             enemies := take j (enemies s) @ drop (Suc j) (enemies s),
             score := score s + 10 \<rparr>)"
proof -
  let ?s2 = "s\<lparr> bullets := bs, enemies := take j (enemies s) @ drop (Suc j) (enemies s),
               score := score s + 10 \<rparr>"
  obtain bs' es' sc' where
    run: "bulletLoop (length bs) (bs, splice1 j (enemies s), score s + 10) = (bs', es', sc')"
    by (cases "bulletLoop (length bs) (bs, splice1 j (enemies s), score s + 10)") auto
  have some: "enemyScan b (enemies s) (length (enemies s)) = Some j"
    using assms(2-4) by (intro enemyScan_SomeI) simp_all
  have "bulletLoop (length (bs @ [b])) (bs @ [b], enemies s, score s) =
        bulletLoop (length bs) (splice1 (length bs) (bs @ [b]), splice1 j (enemies s), score s + 10)"
    using some by simp
  also have "\<dots> = (bs', es', sc')"
    using run by (simp add: splice1_last)
  finally have full: "bulletLoop (length (bullets s)) (bullets s, enemies s, score s) =
      (bs', es', sc')"
    by (simp add: assms(1))
  from run have small: "bulletLoop (length (bullets ?s2)) (bullets ?s2, enemies ?s2, score ?s2) =
      (bs', es', sc')"
    by (simp add: splice1_def)
  show ?thesis
    by (simp add: checkCollisions_loop [OF full] checkCollisions_loop [OF small])
qed

subsection \<open>The obstacle list stays spaced\<close>

lemma last_filter_keep: "xs \<noteq> [] \<Longrightarrow> P (last xs) \<Longrightarrow> last (filter P xs) = last xs"
proof (induction xs)
  case Nil
  then show ?case by simp
next
  case (Cons a xs)
  show ?case
  proof (cases "xs = []")
    case True
    with Cons.prems show ?thesis by simp
  next
    case False
    with Cons.prems have p: "P (last xs)" by simp
    with False Cons.IH have ih: "last (filter P xs) = last xs" by simp
    from False p have "filter P xs \<noteq> []"
      using last_in_set [OF False] by (auto simp: filter_empty_conv)
    with ih False show ?thesis by simp
  qed
qed

lemma spaced_span:
  "sorted_wrt (\<lambda>a b. o_x a + 300 \<le> o_x b) os \<Longrightarrow> os \<noteq> [] \<Longrightarrow>
   o_x (hd os) + 300 * real (length os - 1) \<le> o_x (last os)"
proof (induction os)
  case Nil
  then show ?case by simp
next
  case (Cons a os)
  show ?case
  proof (cases os)
    case Nil
    then show ?thesis by simp
  next
    case (Cons b os')
    with Cons.IH Cons.prems have ih: "o_x b + 300 * real (length os') \<le> o_x (last (b # os'))"
      by simp
    from Cons Cons.prems have step: "o_x a + 300 \<le> o_x b" by simp
    have "o_x a + 300 * real (Suc (length os')) \<le> o_x (last (b # os'))"
      using ih step by (simp add: algebra_simps)
    with Cons show ?thesis by simp
  qed
qed

lemma spaced_length:
  assumes "sorted_wrt (\<lambda>a b. o_x a + 300 \<le> o_x b) os" and "os \<noteq> []"
    and "- 63 \<le> o_x (hd os)" and "o_x (last os) \<le> 797"
  shows "length os < 4"
proof (rule ccontr)
  assume "\<not> length os < 4"
  then have "3 \<le> length os - 1" by simp
  then have "(3::real) \<le> real (length os - 1)" by linarith
  with spaced_span [OF assms(1,2)] assms(3,4) show False by linarith
qed

lemma spaced_le_last:
  "sorted_wrt (\<lambda>a b. o_x a + 300 \<le> o_x b) os \<Longrightarrow> a \<in> set os \<Longrightarrow> o_x a \<le> o_x (last os)"
proof (induction os)
  case Nil
  then show ?case by simp
next
  case (Cons b os)
  show ?case
  proof (cases "os = []")
    case True
    with Cons.prems show ?thesis by simp
  next
    case False
    then have "last os \<in> set os" by simp
    with Cons.prems(1) have "o_x b \<le> o_x (last os)" by fastforce
    with Cons False show ?thesis by auto
  qed
qed
lemma obstacles_step:
  assumes inv: "obstaclesSpaced os"
  shows "\<exists>os'. addNewObstacles inp (updateObstacles os) = Inr os' \<and>
           obstaclesSpaced (filter (\<lambda>obstacle. \<not> offScreen obstacle) os')"
proof -
  let ?R = "\<lambda>a b. o_x a + 300 \<le> o_x b"
  let ?xs = "updateObstacles os"
  from inv have ne: "?xs \<noteq> []" by (simp add: obstaclesSpaced_def updateObstacles_def)
  from inv have all: "\<And>a. a \<in> set ?xs \<Longrightarrow> o_width a = 60 \<and> - 63 \<le> o_x a"
    by (auto simp: obstaclesSpaced_def updateObstacles_def list_all_iff constants)
  have scroll: "(\<lambda>a b. o_x (a\<lparr> o_x := o_x a - 3 \<rparr>) + 300 \<le> o_x (b\<lparr> o_x := o_x b - 3 \<rparr>)) = ?R"
    by (intro ext) (simp add: algebra_simps)
  from inv have "sorted_wrt ?R os" by (simp add: obstaclesSpaced_def)
  then have srt: "sorted_wrt ?R ?xs"
    unfolding updateObstacles_def sorted_wrt_map scroll .
  from inv have lst: "o_x (last ?xs) \<le> 797"
    by (simp add: obstaclesSpaced_def updateObstacles_def last_map constants)
  from ne all have "- 63 \<le> o_x (hd ?xs)" by simp
  with srt ne lst have len: "length ?xs < 4" by (intro spaced_length)
  from ne have lo: "lastObstacle ?xs = Some (last ?xs)"
    by (simp add: lastObstacle_def last_conv_nth)
  let ?new = "\<lparr> o_x = CANVAS_WIDTH, o_topHeight = r_height inp * 200 + 100,
                 o_gap = OBSTACLE_GAP, o_width = OBSTACLE_WIDTH \<rparr>"
  let ?keep = "\<lambda>obstacle. \<not> offScreen obstacle"
  show ?thesis
  proof (cases "o_x (last ?xs) < CANVAS_WIDTH - 300")
    case True
    let ?os' = "?xs @ [?new]"
    have add: "addNewObstacles inp ?xs = Inr ?os'"
      using len lo True by (simp add: addNewObstacles_def)
    have keep: "?keep (last ?os')" by (simp add: offScreen_def constants)
    have "\<And>a. a \<in> set ?xs \<Longrightarrow> o_x a + 300 \<le> 800"
      using spaced_le_last [OF srt] True by (fastforce simp: constants)
    then have srt': "sorted_wrt ?R ?os'"
      using srt by (simp add: sorted_wrt_append constants)
    have "obstaclesSpaced (filter ?keep ?os')"
      unfolding obstaclesSpaced_def
    proof (intro conjI)
      show "filter ?keep ?os' \<noteq> []" using keep by (simp add: filter_empty_conv)
      show "list_all (\<lambda>obstacle. o_width obstacle = OBSTACLE_WIDTH \<and> - OBSTACLE_WIDTH \<le> o_x obstacle)
              (filter ?keep ?os')"
        using all by (auto simp: list_all_iff offScreen_def constants)
      show "sorted_wrt ?R (filter ?keep ?os')" using srt' by (rule sorted_wrt_filter)
      have "last (filter ?keep ?os') = last ?os'" using keep by (intro last_filter_keep) simp_all
      then show "o_x (last (filter ?keep ?os')) \<le> CANVAS_WIDTH" by (simp add: constants)
    qed
    with add show ?thesis by blast
  next
    case False
    have add: "addNewObstacles inp ?xs = Inr ?xs"
      using len lo False by (simp add: addNewObstacles_def)
    from ne all have "o_width (last ?xs) = 60" by simp
    with False have keep: "?keep (last ?xs)" by (simp add: offScreen_def constants)
    have "obstaclesSpaced (filter ?keep ?xs)"
      unfolding obstaclesSpaced_def
    proof (intro conjI)
      show "filter ?keep ?xs \<noteq> []" using keep ne last_in_set [OF ne] by (auto simp: filter_empty_conv)
      show "list_all (\<lambda>obstacle. o_width obstacle = OBSTACLE_WIDTH \<and> - OBSTACLE_WIDTH \<le> o_x obstacle)
              (filter ?keep ?xs)"
        using all by (auto simp: list_all_iff offScreen_def constants)
      show "sorted_wrt ?R (filter ?keep ?xs)" using srt by (rule sorted_wrt_filter)
      have "last (filter ?keep ?xs) = last ?xs" using ne keep by (rule last_filter_keep)
      then show "o_x (last (filter ?keep ?xs)) \<le> CANVAS_WIDTH" using lst by (simp add: constants)
    qed
    with add show ?thesis by blast
  qed
qed



lemma enemyType_Some: "0 \<le> r \<Longrightarrow> r < 1 \<Longrightarrow> enemyType r \<noteq> None"
proof -
  assume "0 \<le> r" "r < 1"
  then have "0 \<le> \<lfloor>r * 4\<rfloor>" and "\<lfloor>r * 4\<rfloor> < 4" by (simp_all add: floor_less_iff)
  then show ?thesis by (simp add: enemyType_def Let_def)
qed

lemma spawnEnemies_ok: "draws_ok inp \<Longrightarrow> \<exists>es'. spawnEnemies inp es = Inr es'"
  using enemyType_Some [of "r_type inp"]
  by (auto simp: spawnEnemies_def draws_ok_def split: option.splits)

lemma updateGame_obstacles:
  assumes "obstaclesSpaced (obstacles s)" and "updateGame inp s = Inr s'"
  shows "obstaclesSpaced (obstacles s')"
proof (cases "gameRunning s")
  case False
  with assms show ?thesis by (simp add: updateGame_def)
next
  case True
  then obtain c where c: "candidateState inp s = Inr c" and s': "s' = checkCollisions c"
    using assms(2) by (rule updateGame_running)
  from c obtain os' where "addNewObstacles inp (updateObstacles (obstacles s)) = Inr os'"
    and "obstacles c = filter (\<lambda>obstacle. \<not> offScreen obstacle) os'"
    by (rule candidateState_fields)
  with obstacles_step [OF assms(1), of inp] show ?thesis by (simp add: s')
qed

lemma updateGame_total:
  assumes "obstaclesSpaced (obstacles s)" and "draws_ok inp"
  shows "\<exists>s'. updateGame inp s = Inr s'"
proof -
  from obstacles_step [OF assms(1), of inp] obtain os' where
    "addNewObstacles inp (updateObstacles (obstacles s)) = Inr os'" by blast
  moreover from spawnEnemies_ok [OF assms(2)] obtain es' where
    "spawnEnemies inp (updateEnemies (enemies s)) = Inr es'" by blast
  ultimately show ?thesis
    by (simp add: updateGame_def candidateState_def Let_def split: prod.splits)
qed

lemma ticks_obstacles:
  "obstaclesSpaced (obstacles s) \<Longrightarrow> ticks inps s = Inr s' \<Longrightarrow> obstaclesSpaced (obstacles s')"
proof (induction inps arbitrary: s)
  case Nil
  then show ?case by simp
next
  case (Cons inp inps)
  from Cons.prems(2) obtain s1 where s1: "updateGame inp s = Inr s1" and rest: "ticks inps s1 = Inr s'"
    by (auto split: sum.splits)
  from Cons.prems(1) s1 have "obstaclesSpaced (obstacles s1)" by (rule updateGame_obstacles)
  then show ?case using rest by (rule Cons.IH)
qed

lemma ticks_total:
  "obstaclesSpaced (obstacles s) \<Longrightarrow> list_all draws_ok inps \<Longrightarrow> \<exists>s'. ticks inps s = Inr s'"
proof (induction inps arbitrary: s)
  case Nil
  then show ?case by simp
next
  case (Cons inp inps)
  from Cons.prems obtain s1 where s1: "updateGame inp s = Inr s1"
    using updateGame_total [of s inp] by auto
  with Cons.prems(1) have "obstaclesSpaced (obstacles s1)" by (rule updateGame_obstacles)
  with Cons.IH [of s1] Cons.prems(2) s1 show ?case by simp
qed

lemma reset_obstacles: "obstaclesSpaced (obstacles (resetGame s0))"
  by (simp add: obstaclesSpaced_def resetGame_def constants)

section \<open>The claims\<close>

subsection \<open>C1: the lower clamp and the phase\<close>

text \<open>
  C1 says that a tick of a running state whose lower clamp fires commits a state that is
  over. The code does not do this: \<^verbatim>\<open>updateGame\<close> sets \<^verbatim>\<open>gameOver\<close> and clears
  \<^verbatim>\<open>gameRunning\<close> at the clamp, and \<^verbatim>\<open>checkCollisions\<close> then overwrites both flags from
  its local \<^verbatim>\<open>gameOver\<close>, which is false when nothing collides. The state below is the one
  29 ticks after a reset with no key pressed and no enemy spawned; in its next tick the
  bird passes the floor, the clamp sets the flags, and the committed state is running
  and not over.
\<close>

theorem lower_clamp_keeps_running:
  "(let inp = \<lparr> flap = False, r_height = 1/2, r_spawn = 1/2, r_type = 1/2, r_pos = 1/2, r_vel = 1/2 \<rparr>;
        s = \<lparr> bird = \<lparr> b_x = 100, b_y = 561, b_velocity = 17.4, b_size = 30 \<rparr>,
              bullets = [], enemies = [],
              obstacles = [ \<lparr> o_x = 313, o_topHeight = 150, o_gap = 200, o_width = 60 \<rparr>,
                            \<lparr> o_x = 613, o_topHeight = 250, o_gap = 200, o_width = 60 \<rparr> ],
              score = 0, gameRunning = True, gameOver = False \<rparr>
    in ticks (replicate 29 inp) (resetGame s0) = Inr s \<and>
       gameRunning s \<and>
       b_y (bird (updateBird (handleInput inp s))) > CANVAS_HEIGHT - b_size (bird (updateBird (handleInput inp s))) \<and>
       gameOver (keepBirdInBounds (updateBird (handleInput inp s))) \<and>
       updateGame inp s = Inr
         \<lparr> bird = \<lparr> b_x = 100, b_y = 570, b_velocity = 18, b_size = 30 \<rparr>,
           bullets = [], enemies = [],
           obstacles = [ \<lparr> o_x = 310, o_topHeight = 150, o_gap = 200, o_width = 60 \<rparr>,
                         \<lparr> o_x = 610, o_topHeight = 250, o_gap = 200, o_width = 60 \<rparr> ],
           score = 0, gameRunning = True, gameOver = False \<rparr>)"
  by (simp add: eval_nat_numeral resetGame_def tick_defs constants)

subsection \<open>C2: bullets against enemies\<close>

text \<open>
  C2 as stated fails: with one bullet within hit distance of two enemies, the loop removes
  the bullet and the enemy of the higher index, adds 10, and leaves the other enemy in
  the committed state although it is within hit distance of the bullet.
\<close>

theorem overlapped_enemy_survives:
  "circleHit \<lparr> b_x = 500, b_y = 100, b_velocity = 8, b_size = 8 \<rparr>
     \<lparr> e_x = 500, e_y = 100, e_velocityX = 2, e_velocityY = 0, e_size = 25, e_type = Left \<rparr> \<and>
   checkCollisions
     \<lparr> bird = \<lparr> b_x = 100, b_y = 300, b_velocity = 0, b_size = 30 \<rparr>,
       bullets = [\<lparr> b_x = 500, b_y = 100, b_velocity = 8, b_size = 8 \<rparr>],
       enemies = [\<lparr> e_x = 500, e_y = 100, e_velocityX = 2, e_velocityY = 0, e_size = 25, e_type = Left \<rparr>,
                  \<lparr> e_x = 501, e_y = 100, e_velocityX = 2, e_velocityY = 0, e_size = 25, e_type = Left \<rparr>],
       obstacles = [],
       score = 0, gameRunning = True, gameOver = False \<rparr>
   = \<lparr> bird = \<lparr> b_x = 100, b_y = 300, b_velocity = 0, b_size = 30 \<rparr>,
       bullets = [],
       enemies = [\<lparr> e_x = 500, e_y = 100, e_velocityX = 2, e_velocityY = 0, e_size = 25, e_type = Left \<rparr>],
       obstacles = [],
       score = 10, gameRunning = True, gameOver = False \<rparr>"
  by (simp add: tick_defs constants circleHit_iff)

text \<open>
  C2, amended. \<^verbatim>\<open>checkCollisions\<close> examines the bullets from the last to the first. A
  bullet within hit distance of an enemy still present is removed together with exactly
  one enemy, the one of the highest index within hit distance of it, and the score rises
  by exactly 10; a bullet within hit distance of no enemy still present is kept, and with
  no bullet nothing changes (the last three conjuncts, which fix the outcome for every
  state). Hence the removed bullets and the removed enemies pair up one to one into hits,
  each pair within hit distance, with exactly 10 points per pair, so nothing is scored
  twice; the committed bullets and enemies are subsequences of the given ones; no
  committed bullet is within hit distance of a committed enemy (of every pair within hit
  distance at least one is removed, not always both); a bullet is removed only if it is
  within hit distance of some enemy, and an enemy only if some bullet is within hit
  distance of it.
\<close>

theorem checkCollisions_hits:
  "subseq (bullets (checkCollisions s)) (bullets s) \<and>
   subseq (enemies (checkCollisions s)) (enemies s) \<and>
   (\<exists>hits. list_all (\<lambda>(b, e). circleHit b e) hits \<and>
      mset (bullets s) = mset (bullets (checkCollisions s)) + mset (map fst hits) \<and>
      mset (enemies s) = mset (enemies (checkCollisions s)) + mset (map snd hits) \<and>
      score (checkCollisions s) = score s + 10 * real (length hits)) \<and>
   (\<forall>b\<in>set (bullets (checkCollisions s)). \<forall>e\<in>set (enemies (checkCollisions s)).
      \<not> circleHit b e) \<and>
   (\<forall>b\<in>set (bullets s). b \<notin> set (bullets (checkCollisions s)) \<longrightarrow>
      (\<exists>e\<in>set (enemies s). circleHit b e)) \<and>
   (\<forall>e\<in>set (enemies s). e \<notin> set (enemies (checkCollisions s)) \<longrightarrow>
      (\<exists>b\<in>set (bullets s). circleHit b e)) \<and>
   (bullets s = [] \<longrightarrow>
      bullets (checkCollisions s) = [] \<and> enemies (checkCollisions s) = enemies s \<and>
      score (checkCollisions s) = score s) \<and>
   (\<forall>bs b. bullets s = bs @ [b] \<and> (\<forall>e\<in>set (enemies s). \<not> circleHit b e) \<longrightarrow>
      checkCollisions s =
        (checkCollisions (s\<lparr> bullets := bs \<rparr>))
          \<lparr> bullets := bullets (checkCollisions (s\<lparr> bullets := bs \<rparr>)) @ [b] \<rparr>) \<and>
   (\<forall>bs b j. bullets s = bs @ [b] \<and> j < length (enemies s) \<and> circleHit b (enemies s ! j) \<and>
        (\<forall>i. j < i \<and> i < length (enemies s) \<longrightarrow> \<not> circleHit b (enemies s ! i)) \<longrightarrow>
      checkCollisions s =
        checkCollisions (s\<lparr> bullets := bs,
          enemies := take j (enemies s) @ drop (Suc j) (enemies s),
          score := score s + 10 \<rparr>))"
proof -
  obtain bs' es' sc' where
    run: "bulletLoop (length (bullets s)) (bullets s, enemies s, score s) = (bs', es', sc')"
    and eq: "bullets (checkCollisions s) = bs'" "enemies (checkCollisions s) = es'"
      "score (checkCollisions s) = sc'"
    by (rule checkCollisions_fields)
  have sub: "subseq bs' (bullets s) \<and> subseq es' (enemies s)"
    using run by (rule bulletLoop_subseq)
  have pairs: "\<exists>hits. list_all (\<lambda>(b, e). circleHit b e) hits \<and>
      mset (bullets s) = mset bs' + mset (map fst hits) \<and>
      mset (enemies s) = mset es' + mset (map snd hits) \<and>
      sc' = score s + 10 * real (length hits)"
    using _ run by (rule bulletLoop_pairs) simp
  have nohit: "\<not> circleHit b e" if "b \<in> set bs'" "e \<in> set es'" for b e
    using _ _ run that by (rule bulletLoop_no_hit) simp_all
  have rb: "\<exists>e\<in>set (enemies s). circleHit b e" if "b \<in> set (bullets s)" "b \<notin> set bs'" for b
    using _ run that by (rule bulletLoop_removed_bullet) simp
  have re: "\<exists>b\<in>set (bullets s). circleHit b e" if "e \<in> set (enemies s)" "e \<notin> set es'" for e
    using _ run that by (rule bulletLoop_removed_enemy) simp
  have empty: "bs' = [] \<and> es' = enemies s \<and> sc' = score s" if "bullets s = []"
    using run that by simp
  have miss: "checkCollisions s =
        (checkCollisions (s\<lparr> bullets := bs \<rparr>))
          \<lparr> bullets := bullets (checkCollisions (s\<lparr> bullets := bs \<rparr>)) @ [b] \<rparr>"
    if "bullets s = bs @ [b]" "\<forall>e\<in>set (enemies s). \<not> circleHit b e" for bs b
    using that by (intro checkCollisions_last_miss) simp_all
  have hit: "checkCollisions s =
        checkCollisions (s\<lparr> bullets := bs,
          enemies := take j (enemies s) @ drop (Suc j) (enemies s),
          score := score s + 10 \<rparr>)"
    if "bullets s = bs @ [b]" "j < length (enemies s)" "circleHit b (enemies s ! j)"
      "\<forall>i. j < i \<and> i < length (enemies s) \<longrightarrow> \<not> circleHit b (enemies s ! i)" for bs b j
    using that by (intro checkCollisions_last_hit [where b = b]) simp_all
  from sub pairs nohit rb re empty miss hit show ?thesis unfolding eq by blast
qed

theorem checkCollisions_hits_witness:
  "checkCollisions
     \<lparr> bird = \<lparr> b_x = 100, b_y = 300, b_velocity = 0, b_size = 30 \<rparr>,
       bullets = [\<lparr> b_x = 500, b_y = 100, b_velocity = 8, b_size = 8 \<rparr>,
                  \<lparr> b_x = 500, b_y = 400, b_velocity = 8, b_size = 8 \<rparr>],
       enemies = [\<lparr> e_x = 500, e_y = 100, e_velocityX = 2, e_velocityY = 0, e_size = 25, e_type = Left \<rparr>,
                  \<lparr> e_x = 500, e_y = 400, e_velocityX = 2, e_velocityY = 0, e_size = 25, e_type = Left \<rparr>],
       obstacles = [], score = 0, gameRunning = True, gameOver = False \<rparr>
   = checkCollisions
     \<lparr> bird = \<lparr> b_x = 100, b_y = 300, b_velocity = 0, b_size = 30 \<rparr>,
       bullets = [\<lparr> b_x = 500, b_y = 100, b_velocity = 8, b_size = 8 \<rparr>],
       enemies = [\<lparr> e_x = 500, e_y = 100, e_velocityX = 2, e_velocityY = 0, e_size = 25, e_type = Left \<rparr>],
       obstacles = [], score = 10, gameRunning = True, gameOver = False \<rparr> \<and>
   checkCollisions
     \<lparr> bird = \<lparr> b_x = 100, b_y = 300, b_velocity = 0, b_size = 30 \<rparr>,
       bullets = [\<lparr> b_x = 500, b_y = 100, b_velocity = 8, b_size = 8 \<rparr>,
                  \<lparr> b_x = 500, b_y = 400, b_velocity = 8, b_size = 8 \<rparr>],
       enemies = [\<lparr> e_x = 500, e_y = 100, e_velocityX = 2, e_velocityY = 0, e_size = 25, e_type = Left \<rparr>,
                  \<lparr> e_x = 500, e_y = 400, e_velocityX = 2, e_velocityY = 0, e_size = 25, e_type = Left \<rparr>],
       obstacles = [], score = 0, gameRunning = True, gameOver = False \<rparr>
   = \<lparr> bird = \<lparr> b_x = 100, b_y = 300, b_velocity = 0, b_size = 30 \<rparr>,
       bullets = [], enemies = [],
       obstacles = [], score = 20, gameRunning = True, gameOver = False \<rparr>"
proof -
  let ?b0 = "\<lparr> b_x = 500, b_y = 100, b_velocity = 8, b_size = 8 \<rparr>"
  let ?b1 = "\<lparr> b_x = 500, b_y = 400, b_velocity = 8, b_size = 8 \<rparr>"
  let ?e0 = "\<lparr> e_x = 500, e_y = 100, e_velocityX = 2, e_velocityY = 0, e_size = 25, e_type = Left \<rparr>"
  let ?e1 = "\<lparr> e_x = 500, e_y = 400, e_velocityX = 2, e_velocityY = 0, e_size = 25, e_type = Left \<rparr>"
  let ?s = "\<lparr> bird = \<lparr> b_x = 100, b_y = 300, b_velocity = 0, b_size = 30 \<rparr>,
       bullets = [?b0, ?b1], enemies = [?e0, ?e1],
       obstacles = [], score = 0, gameRunning = True, gameOver = False \<rparr>"
  let ?s1 = "\<lparr> bird = \<lparr> b_x = 100, b_y = 300, b_velocity = 0, b_size = 30 \<rparr>,
       bullets = [?b0], enemies = [?e0],
       obstacles = [], score = 10, gameRunning = True, gameOver = False \<rparr>"
  have pre: "bullets ?s = [?b0] @ [?b1] \<and> 1 < length (enemies ?s) \<and>
      circleHit ?b1 (enemies ?s ! 1) \<and>
      (\<forall>i. 1 < i \<and> i < length (enemies ?s) \<longrightarrow> \<not> circleHit ?b1 (enemies ?s ! i))"
    by (simp add: circleHit_iff)
  from checkCollisions_hits [of ?s] pre
  have "checkCollisions ?s =
      checkCollisions (?s\<lparr> bullets := [?b0],
        enemies := take 1 (enemies ?s) @ drop (Suc 1) (enemies ?s), score := score ?s + 10 \<rparr>)"
    by blast
  then have step: "checkCollisions ?s = checkCollisions ?s1" by simp
  have "checkCollisions ?s1 = \<lparr> bird = \<lparr> b_x = 100, b_y = 300, b_velocity = 0, b_size = 30 \<rparr>,
       bullets = [], enemies = [],
       obstacles = [], score = 20, gameRunning = True, gameOver = False \<rparr>"
    by (simp add: tick_defs constants circleHit_iff)
  with step show ?thesis by simp
qed

subsection \<open>C3: reset\<close>

text \<open>
  C3. From any state, in any phase, \<^verbatim>\<open>resetGame\<close> yields the same initial running state:
  the bird at x = 100, y = 300 (half the playfield height) with velocity 0 and size 30, no
  bullets, no enemies, exactly the two seeded obstacles (x = 400 with top height 150,
  x = 700 with top height 250, both with gap 200 and width 60), score 0, running and not over.
\<close>

theorem resetGame_initial:
  "resetGame s =
     \<lparr> bird = \<lparr> b_x = 100, b_y = 300, b_velocity = 0, b_size = 30 \<rparr>,
       bullets = [], enemies = [],
       obstacles = [ \<lparr> o_x = 400, o_topHeight = 150, o_gap = 200, o_width = 60 \<rparr>,
                     \<lparr> o_x = 700, o_topHeight = 250, o_gap = 200, o_width = 60 \<rparr> ],
       score = 0, gameRunning = True, gameOver = False \<rparr>"
  by (simp add: resetGame_def constants)

subsection \<open>C4: the bird stays in the playfield\<close>

text \<open>
  C4. If the bird's y lies in [0, CANVAS\_HEIGHT - size] before a tick, it lies there in the
  committed state; and when the upper clamp fires (y after gravity is below 0) in a
  running state, the committed velocity is 0 (and y is 0).
\<close>

theorem bird_stays_in_bounds:
  assumes "0 \<le> b_y (bird s)" and "b_y (bird s) \<le> CANVAS_HEIGHT - b_size (bird s)"
    and "updateGame inp s = Inr s'"
  shows "0 \<le> b_y (bird s') \<and> b_y (bird s') \<le> CANVAS_HEIGHT - b_size (bird s') \<and>
         (gameRunning s \<and> b_y (bird (updateBird (handleInput inp s))) < 0 \<longrightarrow>
            b_velocity (bird s') = 0 \<and> b_y (bird s') = 0)"
proof (cases "gameRunning s")
  case False
  with assms show ?thesis by (simp add: updateGame_def)
next
  case True
  then obtain c where c: "candidateState inp s = Inr c" and s': "s' = checkCollisions c"
    using assms(3) by (rule updateGame_running)
  let ?p = "updateBird (handleInput inp s)"
  from c have b: "bird c = bird (keepBirdInBounds ?p)" by (rule candidateState_fields)
  from assms(1,2) have room: "0 \<le> CANVAS_HEIGHT - b_size (bird ?p)" by simp
  from keepBirdInBounds_range [OF room] keepBirdInBounds_upper [OF _ room]
  show ?thesis by (simp add: s' b)
qed

theorem bird_stays_in_bounds_witness:
  "\<exists>s'. updateGame \<lparr> flap = True, r_height = 1/2, r_spawn = 1/2, r_type = 1/2, r_pos = 1/2, r_vel = 1/2 \<rparr>
            ((resetGame initialState)\<lparr> bird := \<lparr> b_x = 100, b_y = 5, b_velocity = 0, b_size = 30 \<rparr> \<rparr>) = Inr s' \<and>
        b_y (bird s') = 0 \<and> b_velocity (bird s') = 0 \<and> b_y (bird s') \<le> CANVAS_HEIGHT - b_size (bird s')"
proof -
  let ?inp = "\<lparr> flap = True, r_height = 1/2, r_spawn = 1/2, r_type = 1/2, r_pos = 1/2, r_vel = 1/2 \<rparr>"
  let ?s = "(resetGame initialState)\<lparr> bird := \<lparr> b_x = 100, b_y = 5, b_velocity = 0, b_size = 30 \<rparr> \<rparr>"
  let ?s' = "(resetGame initialState)\<lparr> bird := \<lparr> b_x = 100, b_y = 0, b_velocity = 0, b_size = 30 \<rparr>,
     obstacles := [ \<lparr> o_x = 397, o_topHeight = 150, o_gap = 200, o_width = 60 \<rparr>,
                    \<lparr> o_x = 697, o_topHeight = 250, o_gap = 200, o_width = 60 \<rparr> ] \<rparr>"
  have run: "updateGame ?inp ?s = Inr ?s'"
    by (simp add: resetGame_def tick_defs constants)
  have "0 \<le> b_y (bird ?s)" and "b_y (bird ?s) \<le> CANVAS_HEIGHT - b_size (bird ?s)"
    and "gameRunning ?s" and "b_y (bird (updateBird (handleInput ?inp ?s))) < 0"
    by (simp_all add: resetGame_def tick_defs constants)
  with bird_stays_in_bounds [OF _ _ run] run show ?thesis by simp
qed

subsection \<open>C5: the score never decreases\<close>

text \<open>
  C5. A tick never lowers the score, so a positive score is never set back to 0 by a tick
  (only \<^verbatim>\<open>resetGame\<close> writes 0, see C3). A tick of a state that is not running leaves the
  score as it is; a tick of a running state adds 1 for each obstacle that is off screen
  after scrolling and 10 for each of the n bullets consumed by a hit, and nothing else.
\<close>

theorem score_never_decreases:
  assumes "updateGame inp s = Inr s'"
  shows "score s \<le> score s' \<and> (0 < score s \<longrightarrow> 0 < score s') \<and>
         (\<not> gameRunning s \<longrightarrow> score s' = score s) \<and>
         (gameRunning s \<longrightarrow>
            (\<exists>n. length (updateBullets (bullets s)) = length (bullets s') + n \<and>
                 score s' = score s
                   + real (length (filter offScreen (updateObstacles (obstacles s))))
                   + 10 * real n))"
proof (cases "gameRunning s")
  case False
  with assms show ?thesis by (simp add: updateGame_def)
next
  case True
  then obtain c where c: "candidateState inp s = Inr c" and s': "s' = checkCollisions c"
    using assms by (rule updateGame_running)
  from c obtain os where os: "addNewObstacles inp (updateObstacles (obstacles s)) = Inr os"
    and sc: "score c = score s + real (length (filter offScreen os))"
    and bs: "bullets c = updateBullets (bullets s)"
    by (rule candidateState_fields)
  from checkCollisions_count [of c] obtain n where
    n: "length (bullets c) = length (bullets s') + n" "score s' = score c + 10 * real n"
    unfolding s' by blast
  have formula: "length (updateBullets (bullets s)) = length (bullets s') + n \<and>
      score s' = score s + real (length (filter offScreen (updateObstacles (obstacles s))))
                   + 10 * real n"
    using n sc bs addNewObstacles_offScreen [OF os] by simp
  then have "score s \<le> score s'" by simp
  with formula True show ?thesis by auto
qed

theorem score_never_decreases_witness:
  "\<exists>s'. updateGame \<lparr> flap = False, r_height = 1/2, r_spawn = 1/2, r_type = 1/2, r_pos = 1/2, r_vel = 1/2 \<rparr>
     \<lparr> bird = \<lparr> b_x = 100, b_y = 300, b_velocity = 0, b_size = 30 \<rparr>,
       bullets = [\<lparr> b_x = 492, b_y = 100, b_velocity = 8, b_size = 8 \<rparr>],
       enemies = [\<lparr> e_x = 498, e_y = 100, e_velocityX = 2, e_velocityY = 0, e_size = 25, e_type = Left \<rparr>],
       obstacles = [ \<lparr> o_x = - 58, o_topHeight = 150, o_gap = 200, o_width = 60 \<rparr>,
                     \<lparr> o_x = 600, o_topHeight = 250, o_gap = 200, o_width = 60 \<rparr> ],
       score = 5, gameRunning = True, gameOver = False \<rparr> = Inr s' \<and>
     5 \<le> score s' \<and> score s' = 5 + 1 + 10 * 1"
proof -
  let ?inp = "\<lparr> flap = False, r_height = 1/2, r_spawn = 1/2, r_type = 1/2, r_pos = 1/2, r_vel = 1/2 \<rparr>"
  let ?s = "\<lparr> bird = \<lparr> b_x = 100, b_y = 300, b_velocity = 0, b_size = 30 \<rparr>,
       bullets = [\<lparr> b_x = 492, b_y = 100, b_velocity = 8, b_size = 8 \<rparr>],
       enemies = [\<lparr> e_x = 498, e_y = 100, e_velocityX = 2, e_velocityY = 0, e_size = 25, e_type = Left \<rparr>],
       obstacles = [ \<lparr> o_x = - 58, o_topHeight = 150, o_gap = 200, o_width = 60 \<rparr>,
                     \<lparr> o_x = 600, o_topHeight = 250, o_gap = 200, o_width = 60 \<rparr> ],
       score = 5, gameRunning = True, gameOver = False \<rparr>"
  let ?s' = "\<lparr> bird = \<lparr> b_x = 100, b_y = 300.6, b_velocity = 0.6, b_size = 30 \<rparr>,
       bullets = [], enemies = [],
       obstacles = [ \<lparr> o_x = 597, o_topHeight = 250, o_gap = 200, o_width = 60 \<rparr> ],
       score = 16, gameRunning = True, gameOver = False \<rparr>"
  have run: "updateGame ?inp ?s = Inr ?s'"
    by (simp add: tick_defs constants circleHit_iff)
  from score_never_decreases [OF run] have "score ?s \<le> score ?s'" by blast
  with run show ?thesis by simp
qed

subsection \<open>C6: the two collision engines differ\<close>

text \<open>
  C6. The \<^verbatim>\<open>checkCollisions\<close> of FlipShootGame.tsx and the one of unnamed/part\_000 are not
  equivalent. On the state below, with one bullet on top of three enemies, the first
  removes the bullet and the last enemy and adds 10; the second, which does not leave
  the inner \<^verbatim>\<open>forEach\<close> and splices the array it iterates, credits the one bullet against
  the first and the third enemy, skips the second, and adds 20.
\<close>

theorem collision_variants_differ:
  "(let s = \<lparr> bird = \<lparr> b_x = 100, b_y = 300, b_velocity = 0, b_size = 30 \<rparr>,
              bullets = [\<lparr> b_x = 500, b_y = 100, b_velocity = 8, b_size = 8 \<rparr>],
              enemies = [\<lparr> e_x = 500, e_y = 100, e_velocityX = 1, e_velocityY = 0, e_size = 25, e_type = Left \<rparr>,
                         \<lparr> e_x = 500, e_y = 100, e_velocityX = 2, e_velocityY = 0, e_size = 25, e_type = Left \<rparr>,
                         \<lparr> e_x = 500, e_y = 100, e_velocityX = 3, e_velocityY = 0, e_size = 25, e_type = Left \<rparr>],
              obstacles = [], score = 0, gameRunning = True, gameOver = False \<rparr>
    in checkCollisions s =
         s\<lparr> bullets := [],
            enemies := [\<lparr> e_x = 500, e_y = 100, e_velocityX = 1, e_velocityY = 0, e_size = 25, e_type = Left \<rparr>,
                        \<lparr> e_x = 500, e_y = 100, e_velocityX = 2, e_velocityY = 0, e_size = 25, e_type = Left \<rparr>],
            score := 10 \<rparr> \<and>
       checkCollisions_part000 s =
         s\<lparr> bullets := [],
            enemies := [\<lparr> e_x = 500, e_y = 100, e_velocityX = 2, e_velocityY = 0, e_size = 25, e_type = Left \<rparr>],
            score := 20 \<rparr>) \<and>
   (\<exists>s. checkCollisions s \<noteq> checkCollisions_part000 s)"
proof -
  let ?e = "\<lambda>v. \<lparr> e_x = 500, e_y = 100, e_velocityX = v, e_velocityY = 0, e_size = 25, e_type = Left \<rparr>"
  let ?s = "\<lparr> bird = \<lparr> b_x = 100, b_y = 300, b_velocity = 0, b_size = 30 \<rparr>,
       bullets = [\<lparr> b_x = 500, b_y = 100, b_velocity = 8, b_size = 8 \<rparr>],
       enemies = [?e 1, ?e 2, ?e 3],
       obstacles = [],
       score = 0, gameRunning = True, gameOver = False \<rparr>"
  have new: "checkCollisions ?s = ?s\<lparr> bullets := [], enemies := [?e 1, ?e 2], score := 10 \<rparr>"
    by (simp add: tick_defs constants circleHit_iff)
  have old: "checkCollisions_part000 ?s = ?s\<lparr> bullets := [], enemies := [?e 2], score := 20 \<rparr>"
    by (simp add: checkCollisions_part000_def splice1_def constants cornerHit_iff)
  have "checkCollisions ?s \<noteq> checkCollisions_part000 ?s"
    by (simp add: new old)
  then have "\<exists>s. checkCollisions s \<noteq> checkCollisions_part000 s" by blast
  with new old show ?thesis by (simp add: Let_def)
qed

subsection \<open>C7: the obstacle list is never empty\<close>

text \<open>
  C7. Every sequence of ticks from a reset whose draws lie in [0, 1) commits a state at
  every tick (no TypeError is thrown); and in every state reached from a reset by a
  sequence of ticks, whatever the inputs, the obstacle list is not empty, so the read of
  the last obstacle in the spawn test finds an element (\<^verbatim>\<open>lastObstacle\<close> is not
  \<^verbatim>\<open>None\<close>).
\<close>

theorem obstacles_never_empty:
  "(list_all draws_ok inps \<longrightarrow> (\<exists>s. ticks inps (resetGame s0) = Inr s)) \<and>
   (\<forall>s. ticks inps (resetGame s0) = Inr s \<longrightarrow>
      obstacles s \<noteq> [] \<and> lastObstacle (updateObstacles (obstacles s)) \<noteq> None)"
proof -
  have "obstacles s \<noteq> [] \<and> lastObstacle (updateObstacles (obstacles s)) \<noteq> None"
    if run: "ticks inps (resetGame s0) = Inr s" for s
  proof -
    from reset_obstacles run have "obstaclesSpaced (obstacles s)" by (rule ticks_obstacles)
    then have "obstacles s \<noteq> []" by (simp add: obstaclesSpaced_def)
    then show ?thesis by (simp add: lastObstacle_def updateObstacles_def)
  qed
  moreover have "\<exists>s. ticks inps (resetGame s0) = Inr s" if "list_all draws_ok inps"
    using reset_obstacles that by (rule ticks_total)
  ultimately show ?thesis by blast
qed

theorem obstacles_never_empty_witness:
  "ticks [\<lparr> flap = True, r_height = 1/2, r_spawn = 1/2, r_type = 1/2, r_pos = 1/2, r_vel = 1/2 \<rparr>,
          \<lparr> flap = False, r_height = 1/4, r_spawn = 1/100, r_type = 3/4, r_pos = 1/2, r_vel = 1/2 \<rparr>]
     (resetGame initialState)
   = Inr
     \<lparr> bird = \<lparr> b_x = 100, b_y = 277.8, b_velocity = - 10.8, b_size = 30 \<rparr>,
       bullets = [],
       enemies = [\<lparr> e_x = 825, e_y = 300, e_velocityX = - 2, e_velocityY = 0, e_size = 25, e_type = Right \<rparr>],
       obstacles = [ \<lparr> o_x = 394, o_topHeight = 150, o_gap = 200, o_width = 60 \<rparr>,
                     \<lparr> o_x = 694, o_topHeight = 250, o_gap = 200, o_width = 60 \<rparr> ],
       score = 0, gameRunning = True, gameOver = False \<rparr> \<and>
   lastObstacle (updateObstacles
     [ \<lparr> o_x = 394, o_topHeight = 150, o_gap = 200, o_width = 60 \<rparr>,
       \<lparr> o_x = 694, o_topHeight = 250, o_gap = 200, o_width = 60 \<rparr> ]) \<noteq> None"
proof -
  let ?inps = "[\<lparr> flap = True, r_height = 1/2, r_spawn = 1/2, r_type = 1/2, r_pos = 1/2, r_vel = 1/2 \<rparr>,
               \<lparr> flap = False, r_height = 1/4, r_spawn = 1/100, r_type = 3/4, r_pos = 1/2, r_vel = 1/2 \<rparr>]"
  let ?s = "\<lparr> bird = \<lparr> b_x = 100, b_y = 277.8, b_velocity = - 10.8, b_size = 30 \<rparr>,
       bullets = [],
       enemies = [\<lparr> e_x = 825, e_y = 300, e_velocityX = - 2, e_velocityY = 0, e_size = 25, e_type = Right \<rparr>],
       obstacles = [ \<lparr> o_x = 394, o_topHeight = 150, o_gap = 200, o_width = 60 \<rparr>,
                     \<lparr> o_x = 694, o_topHeight = 250, o_gap = 200, o_width = 60 \<rparr> ],
       score = 0, gameRunning = True, gameOver = False \<rparr>"
  have run: "ticks ?inps (resetGame initialState) = Inr ?s"
    by (simp add: resetGame_def tick_defs constants circleHit_iff)
  from obstacles_never_empty [of ?inps initialState] run
  have "lastObstacle (updateObstacles (obstacles ?s)) \<noteq> None" by blast
  with run show ?thesis by simp
qed

subsection \<open>C8: bullets advance and leave at the right edge\<close>

text \<open>
  C8 as stated fails in two ways, both in the tick below. The second bullet has x = 800
  after the advance, which does not exceed the playfield width, and the filter
  \<^verbatim>\<open>bullet.x < CANVAS_WIDTH\<close> drops it. The first bullet has x = 500 after the advance
  and is within hit distance of the enemy, so \<^verbatim>\<open>checkCollisions\<close> removes it in the same
  tick. Neither is in the committed state.
\<close>

theorem bullet_at_width_dropped:
  "\<not> CANVAS_WIDTH < 792 + 8 \<and> \<not> CANVAS_WIDTH < 492 + 8 \<and>
   updateGame \<lparr> flap = False, r_height = 1/2, r_spawn = 1/2, r_type = 1/2, r_pos = 1/2, r_vel = 1/2 \<rparr>
     \<lparr> bird = \<lparr> b_x = 100, b_y = 300, b_velocity = 0, b_size = 30 \<rparr>,
       bullets = [\<lparr> b_x = 492, b_y = 100, b_velocity = 8, b_size = 8 \<rparr>,
                  \<lparr> b_x = 792, b_y = 200, b_velocity = 8, b_size = 8 \<rparr>],
       enemies = [\<lparr> e_x = 498, e_y = 100, e_velocityX = 2, e_velocityY = 0, e_size = 25, e_type = Left \<rparr>],
       obstacles = [ \<lparr> o_x = 400, o_topHeight = 150, o_gap = 200, o_width = 60 \<rparr>,
                     \<lparr> o_x = 700, o_topHeight = 250, o_gap = 200, o_width = 60 \<rparr> ],
       score = 0, gameRunning = True, gameOver = False \<rparr>
   = Inr
     \<lparr> bird = \<lparr> b_x = 100, b_y = 300.6, b_velocity = 0.6, b_size = 30 \<rparr>,
       bullets = [],
       enemies = [],
       obstacles = [ \<lparr> o_x = 397, o_topHeight = 150, o_gap = 200, o_width = 60 \<rparr>,
                     \<lparr> o_x = 697, o_topHeight = 250, o_gap = 200, o_width = 60 \<rparr> ],
       score = 10, gameRunning = True, gameOver = False \<rparr>"
  by (simp add: tick_defs constants circleHit_iff)

text \<open>
  C8, amended. In a tick of a running state every bullet's x advances by its velocity (y,
  velocity and size unchanged), and the bullet update keeps a bullet exactly when its x
  after the advance is strictly below the playfield width (a bullet at the width or
  beyond is dropped). The committed bullets are a subsequence of the kept ones: a kept
  bullet is in the committed state unless it is within hit distance of an enemy of the
  state handed to \<^verbatim>\<open>checkCollisions\<close>, and when no kept bullet is within hit distance of
  such an enemy the committed bullets are exactly the kept ones.
\<close>

theorem bullets_advance:
  assumes "gameRunning s" and "updateGame inp s = Inr s'"
  shows "\<exists>c. candidateState inp s = Inr c \<and>
           bullets c = filter (\<lambda>b. b_x b < CANVAS_WIDTH)
                         (map (\<lambda>b. b\<lparr> b_x := b_x b + b_velocity b \<rparr>) (bullets s)) \<and>
           (\<forall>b\<in>set (bullets s).
              (b\<lparr> b_x := b_x b + b_velocity b \<rparr> \<in> set (bullets c)) =
              (b_x b + b_velocity b < CANVAS_WIDTH)) \<and>
           subseq (bullets s') (bullets c) \<and>
           (\<forall>b\<in>set (bullets c). b \<in> set (bullets s') \<or> (\<exists>e\<in>set (enemies c). circleHit b e)) \<and>
           ((\<forall>b\<in>set (bullets c). \<forall>e\<in>set (enemies c). \<not> circleHit b e) \<longrightarrow>
              bullets s' = bullets c)"
proof -
  obtain c where c: "candidateState inp s = Inr c" and s': "s' = checkCollisions c"
    using assms by (rule updateGame_running)
  from c have bs: "bullets c = updateBullets (bullets s)" by (rule candidateState_fields)
  obtain bs' es' sc' where
    run: "bulletLoop (length (bullets c)) (bullets c, enemies c, score c) = (bs', es', sc')"
    and eq: "bullets (checkCollisions c) = bs'"
    by (rule checkCollisions_fields)
  have 1: "bullets c = filter (\<lambda>b. b_x b < CANVAS_WIDTH)
                         (map (\<lambda>b. b\<lparr> b_x := b_x b + b_velocity b \<rparr>) (bullets s))"
    by (simp add: bs updateBullets_def)
  have 2: "(b\<lparr> b_x := b_x b + b_velocity b \<rparr> \<in> set (bullets c)) =
           (b_x b + b_velocity b < CANVAS_WIDTH)" if "b \<in> set (bullets s)" for b
    using that by (auto simp: 1)
  have 3: "subseq (bullets s') (bullets c)"
    using bulletLoop_subseq [OF run] by (simp add: s' eq)
  have 4: "b \<in> set (bullets s') \<or> (\<exists>e\<in>set (enemies c). circleHit b e)"
    if "b \<in> set (bullets c)" for b
    using bulletLoop_removed_bullet [OF _ run that] by (auto simp: s' eq)
  have 5: "bullets s' = bullets c"
    if "\<forall>b\<in>set (bullets c). \<forall>e\<in>set (enemies c). \<not> circleHit b e"
  proof -
    from that have "bulletLoop (length (bullets c)) (bullets c, enemies c, score c) =
        (bullets c, enemies c, score c)"
      by (intro bulletLoop_no_hits) simp_all
    with run show ?thesis by (simp add: s' eq)
  qed
  from c 1 2 3 4 5 show ?thesis by blast
qed

theorem bullets_advance_witness:
  "\<exists>s'. updateGame \<lparr> flap = False, r_height = 1/2, r_spawn = 1/2, r_type = 1/2, r_pos = 1/2, r_vel = 1/2 \<rparr>
     \<lparr> bird = \<lparr> b_x = 100, b_y = 300, b_velocity = 0, b_size = 30 \<rparr>,
       bullets = [\<lparr> b_x = 130, b_y = 315, b_velocity = 8, b_size = 8 \<rparr>,
                  \<lparr> b_x = 795, b_y = 200, b_velocity = 8, b_size = 8 \<rparr>],
       enemies = [],
       obstacles = [ \<lparr> o_x = 400, o_topHeight = 150, o_gap = 200, o_width = 60 \<rparr>,
                     \<lparr> o_x = 700, o_topHeight = 250, o_gap = 200, o_width = 60 \<rparr> ],
       score = 0, gameRunning = True, gameOver = False \<rparr> = Inr s' \<and>
     bullets s' = [\<lparr> b_x = 138, b_y = 315, b_velocity = 8, b_size = 8 \<rparr>]"
proof -
  let ?inp = "\<lparr> flap = False, r_height = 1/2, r_spawn = 1/2, r_type = 1/2, r_pos = 1/2, r_vel = 1/2 \<rparr>"
  let ?s = "\<lparr> bird = \<lparr> b_x = 100, b_y = 300, b_velocity = 0, b_size = 30 \<rparr>,
       bullets = [\<lparr> b_x = 130, b_y = 315, b_velocity = 8, b_size = 8 \<rparr>,
                  \<lparr> b_x = 795, b_y = 200, b_velocity = 8, b_size = 8 \<rparr>],
       enemies = [],
       obstacles = [ \<lparr> o_x = 400, o_topHeight = 150, o_gap = 200, o_width = 60 \<rparr>,
                     \<lparr> o_x = 700, o_topHeight = 250, o_gap = 200, o_width = 60 \<rparr> ],
       score = 0, gameRunning = True, gameOver = False \<rparr>"
  let ?s' = "\<lparr> bird = \<lparr> b_x = 100, b_y = 300.6, b_velocity = 0.6, b_size = 30 \<rparr>,
       bullets = [\<lparr> b_x = 138, b_y = 315, b_velocity = 8, b_size = 8 \<rparr>],
       enemies = [],
       obstacles = [ \<lparr> o_x = 397, o_topHeight = 150, o_gap = 200, o_width = 60 \<rparr>,
                     \<lparr> o_x = 697, o_topHeight = 250, o_gap = 200, o_width = 60 \<rparr> ],
       score = 0, gameRunning = True, gameOver = False \<rparr>"
  have run: "updateGame ?inp ?s = Inr ?s'"
    by (simp add: tick_defs constants)
  have running: "gameRunning ?s" by simp
  from bullets_advance [OF running run] obtain c where
    "candidateState ?inp ?s = Inr c"
    "bullets c = filter (\<lambda>b. b_x b < CANVAS_WIDTH)
       (map (\<lambda>b. b\<lparr> b_x := b_x b + b_velocity b \<rparr>) (bullets ?s))"
    "(\<forall>b\<in>set (bullets c). \<forall>e\<in>set (enemies c). \<not> circleHit b e) \<longrightarrow> bullets ?s' = bullets c"
    by blast
  with run show ?thesis by simp
qed

subsection \<open>C9: obstacles past the left edge\<close>

text \<open>
  C9. In a tick of a running state the committed obstacle list is the scrolled list without
  the obstacles with x + width < 0, followed by the new obstacle if one was spawned; each
  removed obstacle adds exactly 1 to the score and the kept ones add nothing (the rest of
  the score change is 10 for each of the n bullets consumed by a hit).
\<close>

theorem offscreen_obstacles_score:
  assumes "gameRunning s" and "updateGame inp s = Inr s'"
  shows "\<exists>extra n.
           (extra = [] \<or>
            extra = [\<lparr> o_x = CANVAS_WIDTH, o_topHeight = r_height inp * 200 + 100,
                       o_gap = OBSTACLE_GAP, o_width = OBSTACLE_WIDTH \<rparr>]) \<and>
           obstacles s' =
             filter (\<lambda>obstacle. \<not> o_x obstacle + o_width obstacle < 0)
               (map (\<lambda>obstacle. obstacle\<lparr> o_x := o_x obstacle - 3 \<rparr>) (obstacles s)) @ extra \<and>
           length (updateBullets (bullets s)) = length (bullets s') + n \<and>
           score s' = score s
             + real (length (filter (\<lambda>obstacle. o_x obstacle + o_width obstacle < 0)
                 (map (\<lambda>obstacle. obstacle\<lparr> o_x := o_x obstacle - 3 \<rparr>) (obstacles s))))
             + 10 * real n"
proof -
  obtain c where c: "candidateState inp s = Inr c" and s': "s' = checkCollisions c"
    using assms by (rule updateGame_running)
  from c obtain os where os: "addNewObstacles inp (updateObstacles (obstacles s)) = Inr os"
    and ob: "obstacles c = filter (\<lambda>obstacle. \<not> offScreen obstacle) os"
    and sc: "score c = score s + real (length (filter offScreen os))"
    and bs: "bullets c = updateBullets (bullets s)"
    by (rule candidateState_fields)
  from checkCollisions_count [of c] obtain n where
    n: "length (bullets c) = length (bullets s') + n" "score s' = score c + 10 * real n"
    unfolding s' by blast
  have off: "offScreen = (\<lambda>obstacle. o_x obstacle + o_width obstacle < 0)"
    by (rule ext) (simp add: offScreen_def)
  let ?new = "\<lparr> o_x = CANVAS_WIDTH, o_topHeight = r_height inp * 200 + 100,
                 o_gap = OBSTACLE_GAP, o_width = OBSTACLE_WIDTH \<rparr>"
  let ?xs = "updateObstacles (obstacles s)"
  from addNewObstacles_cases [OF os] obtain extra where
    extra: "extra = [] \<or> extra = [?new]" and split: "os = ?xs @ extra"
    by auto
  have keep: "filter (\<lambda>obstacle. \<not> offScreen obstacle) extra = extra"
    using extra by (auto simp: offScreen_def constants)
  have "obstacles s' = filter (\<lambda>obstacle. \<not> offScreen obstacle) ?xs @ extra"
    by (simp add: s' ob split keep)
  moreover have "score s' = score s + real (length (filter offScreen ?xs)) + 10 * real n"
    using n sc addNewObstacles_offScreen [OF os] by simp
  moreover have "length (updateBullets (bullets s)) = length (bullets s') + n"
    using n bs by simp
  ultimately show ?thesis
    using extra unfolding off updateObstacles_def by blast
qed

theorem offscreen_obstacles_score_witness:
  "\<exists>s'. updateGame \<lparr> flap = False, r_height = 1/2, r_spawn = 1/2, r_type = 1/2, r_pos = 1/2, r_vel = 1/2 \<rparr>
     \<lparr> bird = \<lparr> b_x = 100, b_y = 300, b_velocity = 0, b_size = 30 \<rparr>,
       bullets = [\<lparr> b_x = 492, b_y = 100, b_velocity = 8, b_size = 8 \<rparr>],
       enemies = [\<lparr> e_x = 498, e_y = 100, e_velocityX = 2, e_velocityY = 0, e_size = 25, e_type = Left \<rparr>],
       obstacles = [ \<lparr> o_x = - 58, o_topHeight = 150, o_gap = 200, o_width = 60 \<rparr>,
                     \<lparr> o_x = 600, o_topHeight = 250, o_gap = 200, o_width = 60 \<rparr> ],
       score = 5, gameRunning = True, gameOver = False \<rparr> = Inr s' \<and>
     obstacles s' = [\<lparr> o_x = 597, o_topHeight = 250, o_gap = 200, o_width = 60 \<rparr>] \<and>
     score s' = 16"
proof -
  let ?inp = "\<lparr> flap = False, r_height = 1/2, r_spawn = 1/2, r_type = 1/2, r_pos = 1/2, r_vel = 1/2 \<rparr>"
  let ?s = "\<lparr> bird = \<lparr> b_x = 100, b_y = 300, b_velocity = 0, b_size = 30 \<rparr>,
       bullets = [\<lparr> b_x = 492, b_y = 100, b_velocity = 8, b_size = 8 \<rparr>],
       enemies = [\<lparr> e_x = 498, e_y = 100, e_velocityX = 2, e_velocityY = 0, e_size = 25, e_type = Left \<rparr>],
       obstacles = [ \<lparr> o_x = - 58, o_topHeight = 150, o_gap = 200, o_width = 60 \<rparr>,
                     \<lparr> o_x = 600, o_topHeight = 250, o_gap = 200, o_width = 60 \<rparr> ],
       score = 5, gameRunning = True, gameOver = False \<rparr>"
  let ?s' = "\<lparr> bird = \<lparr> b_x = 100, b_y = 300.6, b_velocity = 0.6, b_size = 30 \<rparr>,
       bullets = [], enemies = [],
       obstacles = [ \<lparr> o_x = 597, o_topHeight = 250, o_gap = 200, o_width = 60 \<rparr> ],
       score = 16, gameRunning = True, gameOver = False \<rparr>"
  have run: "updateGame ?inp ?s = Inr ?s'"
    by (simp add: tick_defs constants circleHit_iff)
  have running: "gameRunning ?s" by simp
  from offscreen_obstacles_score [OF running run] obtain extra n where
    "obstacles ?s' =
       filter (\<lambda>obstacle. \<not> o_x obstacle + o_width obstacle < 0)
         (map (\<lambda>obstacle. obstacle\<lparr> o_x := o_x obstacle - 3 \<rparr>) (obstacles ?s)) @ extra"
    by blast
  with run show ?thesis by simp
qed

subsection \<open>C10: fire\<close>

text \<open>
  C10 says that firing leaves the state unchanged unless the game is running and not over.
  \<^verbatim>\<open>handleShoot\<close> tests the rendered state and changes the latest one: whenever the
  rendered state is not running or is over the latest state is returned unchanged, and
  whenever it is running and not over exactly one bullet is appended to the latest
  state, at (bird.x + bird.size, bird.y + bird.size / 2) of the latest bird with speed 8
  and size 8, and no other field changes. When the two states are the same this is the
  claim. When they differ the code breaks it: in the second theorem the rendered state is the
  running state 90 ticks after a reset, the latest state is the one its next tick
  commits, which is over, and \<^verbatim>\<open>handleShoot\<close> appends a bullet to that over state.
  \<^verbatim>\<open>updateGame\<close> of the same file tests \<^verbatim>\<open>prevState.gameRunning\<close> inside its updater.
\<close>

theorem handleShoot_spec:
  "(\<not> (gameRunning gameState \<and> \<not> gameOver gameState) \<longrightarrow> handleShoot gameState prev = prev) \<and>
   (gameRunning gameState \<and> \<not> gameOver gameState \<longrightarrow>
      handleShoot gameState prev =
        prev\<lparr> bullets := bullets prev @
             [\<lparr> b_x = b_x (bird prev) + b_size (bird prev),
                b_y = b_y (bird prev) + b_size (bird prev) / 2,
                b_velocity = 8, b_size = 8 \<rparr>] \<rparr>)"
  by (simp add: handleShoot_def newBullet_def constants)

theorem handleShoot_stale_guard:
  "(let inp = \<lparr> flap = False, r_height = 1/2, r_spawn = 1/2, r_type = 1/2, r_pos = 1/2, r_vel = 1/2 \<rparr>;
        rendered =
          \<lparr> bird = \<lparr> b_x = 100, b_y = 570, b_velocity = 54, b_size = 30 \<rparr>,
            bullets = [], enemies = [],
            obstacles = [ \<lparr> o_x = 130, o_topHeight = 150, o_gap = 200, o_width = 60 \<rparr>,
                          \<lparr> o_x = 430, o_topHeight = 250, o_gap = 200, o_width = 60 \<rparr>,
                          \<lparr> o_x = 731, o_topHeight = 200, o_gap = 200, o_width = 60 \<rparr> ],
            score = 0, gameRunning = True, gameOver = False \<rparr>;
        latest =
          \<lparr> bird = \<lparr> b_x = 100, b_y = 570, b_velocity = 54.6, b_size = 30 \<rparr>,
            bullets = [], enemies = [],
            obstacles = [ \<lparr> o_x = 127, o_topHeight = 150, o_gap = 200, o_width = 60 \<rparr>,
                          \<lparr> o_x = 427, o_topHeight = 250, o_gap = 200, o_width = 60 \<rparr>,
                          \<lparr> o_x = 728, o_topHeight = 200, o_gap = 200, o_width = 60 \<rparr> ],
            score = 0, gameRunning = False, gameOver = True \<rparr>
    in ticks (replicate 90 inp) (resetGame initialState) = Inr rendered \<and>
       updateGame inp rendered = Inr latest \<and>
       handleShoot rendered latest =
         latest\<lparr> bullets := [\<lparr> b_x = 130, b_y = 585, b_velocity = 8, b_size = 8 \<rparr>] \<rparr>)"
proof -
  let ?inp = "\<lparr> flap = False, r_height = 1/2, r_spawn = 1/2, r_type = 1/2, r_pos = 1/2, r_vel = 1/2 \<rparr>"
  let ?rendered =
          "\<lparr> bird = \<lparr> b_x = 100, b_y = 570, b_velocity = 54, b_size = 30 \<rparr>,
            bullets = [], enemies = [],
            obstacles = [ \<lparr> o_x = 130, o_topHeight = 150, o_gap = 200, o_width = 60 \<rparr>,
                          \<lparr> o_x = 430, o_topHeight = 250, o_gap = 200, o_width = 60 \<rparr>,
                          \<lparr> o_x = 731, o_topHeight = 200, o_gap = 200, o_width = 60 \<rparr> ],
            score = 0, gameRunning = True, gameOver = False \<rparr>"
  let ?latest =
          "\<lparr> bird = \<lparr> b_x = 100, b_y = 570, b_velocity = 54.6, b_size = 30 \<rparr>,
            bullets = [], enemies = [],
            obstacles = [ \<lparr> o_x = 127, o_topHeight = 150, o_gap = 200, o_width = 60 \<rparr>,
                          \<lparr> o_x = 427, o_topHeight = 250, o_gap = 200, o_width = 60 \<rparr>,
                          \<lparr> o_x = 728, o_topHeight = 200, o_gap = 200, o_width = 60 \<rparr> ],
            score = 0, gameRunning = False, gameOver = True \<rparr>"
  have reach: "ticks (replicate 90 ?inp) (resetGame initialState) = Inr ?rendered"
    by (simp add: eval_nat_numeral resetGame_def tick_defs constants)
  have tick: "updateGame ?inp ?rendered = Inr ?latest"
    by (simp add: tick_defs constants)
  have "handleShoot ?rendered ?latest =
      ?latest\<lparr> bullets := [\<lparr> b_x = 130, b_y = 585, b_velocity = 8, b_size = 8 \<rparr>] \<rparr>"
    using handleShoot_spec [of ?rendered ?latest] by simp
  with reach tick show ?thesis by (simp add: Let_def)
qed

end
